theory Spec2Isabelle
  imports Main
begin

section \<open>Heimdall: hotkey, overlay selection, screenshot, OCR, clipboard\<close>

text \<open>
  A shallow embedding of \<^verbatim>\<open>src/main.py\<close>. The program is a thin layer over PyQt5,
  pytesseract, pyperclip and pynput. What the program itself does (which calls it makes, in which
  order, what it stores, which exceptions it catches, what it prints) is translated from the
  source. The few library operations whose result a property depends on are written out after
  the library's own definition and are marked as such; every other library call is an oracle of
  the environment whose result the model does not restrict. Every call that can raise is an
  oracle that can raise, the writes to standard output included.
\<close>

subsection \<open>Python strings\<close>

text \<open>
  A Python \<^verbatim>\<open>str\<close> is a sequence of code points. \<^verbatim>\<open>str.strip()\<close> without
  argument removes the leading and the trailing characters for which \<^verbatim>\<open>str.isspace\<close> holds;
  the code points below are the ones CPython lists.
\<close>

type_synonym ustr = "nat list"

definition lit :: "string \<Rightarrow> ustr" where
  "lit s = map of_char s"

definition py_isspace :: "nat \<Rightarrow> bool" where
  "py_isspace c =
     ((9 \<le> c \<and> c \<le> 13) \<or> (28 \<le> c \<and> c \<le> 32) \<or> c = 133 \<or> c = 160 \<or> c = 5760 \<or>
      (8192 \<le> c \<and> c \<le> 8202) \<or> c = 8232 \<or> c = 8233 \<or> c = 8239 \<or> c = 8287 \<or> c = 12288)"

definition py_strip :: "ustr \<Rightarrow> ustr" where
  "py_strip s = rev (dropWhile py_isspace (rev (dropWhile py_isspace s)))"

subsection \<open>Qt geometry\<close>

text \<open>
  \<^verbatim>\<open>QPoint\<close> and \<^verbatim>\<open>QRect\<close> as Qt 5 defines them (the program runs on PyQt5). Their
  coordinates are C \<^verbatim>\<open>int\<close>s of 32 bits: a coordinate is an integer between \<open>-2^31\<close> and
  \<open>2^31 - 1\<close>, and the arithmetic Qt does on coordinates wraps around (\<open>wrap32\<close>). A
  \<^verbatim>\<open>QRect\<close> stores its two corners, both inclusive, so that the width is
  \<^verbatim>\<open>x2 - x1 + 1\<close>; \<^verbatim>\<open>QRect(topLeft, bottomRight)\<close> stores the two points as they are given.
  \<^verbatim>\<open>QSize()\<close> is the invalid size \<open>(-1, -1)\<close>.
\<close>

definition wrap32 :: "int \<Rightarrow> int" where
  "wrap32 k = (k + 2147483648) mod 4294967296 - 2147483648"

record QPoint =
  px :: int
  py :: int

record QRect =
  x1 :: int
  y1 :: int
  x2 :: int
  y2 :: int

definition QRect_points :: "QPoint \<Rightarrow> QPoint \<Rightarrow> QRect" where
  "QRect_points topLeft bottomRight =
     \<lparr>x1 = px topLeft, y1 = py topLeft, x2 = px bottomRight, y2 = py bottomRight\<rparr>"

definition QRect_point_size :: "QPoint \<Rightarrow> int \<times> int \<Rightarrow> QRect" where
  "QRect_point_size topLeft sz =
     \<lparr>x1 = px topLeft, y1 = py topLeft,
      x2 = wrap32 (wrap32 (px topLeft + fst sz) - 1),
      y2 = wrap32 (wrap32 (py topLeft + snd sz) - 1)\<rparr>"

definition QSize_invalid :: "int \<times> int" where
  "QSize_invalid = (-1, -1)"

definition rect_width :: "QRect \<Rightarrow> int" where
  "rect_width r = wrap32 (wrap32 (x2 r - x1 r) + 1)"

definition rect_height :: "QRect \<Rightarrow> int" where
  "rect_height r = wrap32 (wrap32 (y2 r - y1 r) + 1)"

definition rect_isEmpty :: "QRect \<Rightarrow> bool" where
  "rect_isEmpty r = (x1 r > x2 r \<or> y1 r > y2 r)"

text \<open>
  \<^verbatim>\<open>QRect::normalized()\<close> of Qt 5: the corners of an axis are swapped when the second lies
  more than one below the first, where \<^verbatim>\<open>x1 - 1\<close> is computed in 32 bits.
\<close>

definition normalized :: "QRect \<Rightarrow> QRect" where
  "normalized r =
     (let (a1, a2) = (if x2 r < wrap32 (x1 r - 1) then (x2 r, x1 r) else (x1 r, x2 r));
          (b1, b2) = (if y2 r < wrap32 (y1 r - 1) then (y2 r, y1 r) else (y1 r, y2 r))
      in \<lparr>x1 = a1, y1 = b1, x2 = a2, y2 = b2\<rparr>)"

subsection \<open>Exceptions\<close>

text \<open>
  A raised exception is a value. The program's handlers select by class
  (\<^verbatim>\<open>except pytesseract.TesseractError\<close>, \<^verbatim>\<open>except AttributeError\<close>,
  \<^verbatim>\<open>except Exception\<close>), so an exception carries the class it is an instance of, as far as
  those clauses tell classes apart, and the text \<^verbatim>\<open>str(e)\<close> that the handlers print.
  \<open>NotException\<close> stands for the instances of \<^verbatim>\<open>BaseException\<close> that are not instances
  of \<^verbatim>\<open>Exception\<close> (\<^verbatim>\<open>KeyboardInterrupt\<close>, \<^verbatim>\<open>SystemExit\<close>).
\<close>

datatype exc_kind = TesseractError | AttributeError | OtherException | NotException

record py_exc =
  kind :: exc_kind
  message :: ustr

definition is_Exception :: "py_exc \<Rightarrow> bool" where
  "is_Exception e = (kind e \<noteq> NotException)"

subsection \<open>The overlay widget\<close>

datatype MouseButton = LeftButton | RightButton | MiddleButton

text \<open>
  The fields \<^verbatim>\<open>__init__\<close> sets, the visibility of the widget and of its rubber band, and the
  number of slots connected to the signal \<^verbatim>\<open>selectionComplete\<close>. The geometry of the rubber
  band is \<open>None\<close> until the program sets it.
\<close>

record ScreenshotOverlay =
  start_point :: "QPoint option"
  end_point :: "QPoint option"
  rubber_band_geometry :: "QRect option"
  rubber_band_visible :: bool
  visible :: bool
  connections :: nat

definition ScreenshotOverlay_init :: ScreenshotOverlay where
  "ScreenshotOverlay_init =
     \<lparr>start_point = None, end_point = None, rubber_band_geometry = None,
      rubber_band_visible = False, visible = False, connections = 0\<rparr>"

definition mousePressEvent :: "MouseButton \<Rightarrow> QPoint \<Rightarrow> ScreenshotOverlay \<Rightarrow> ScreenshotOverlay" where
  "mousePressEvent button pos ov =
     (if button = LeftButton
      then ov\<lparr>start_point := Some pos,
              rubber_band_geometry := Some (QRect_point_size pos QSize_invalid),
              rubber_band_visible := True\<rparr>
      else ov)"

definition mouseMoveEvent :: "QPoint \<Rightarrow> ScreenshotOverlay \<Rightarrow> ScreenshotOverlay" where
  "mouseMoveEvent pos ov =
     (case start_point ov of
        Some sp \<Rightarrow> ov\<lparr>rubber_band_geometry := Some (normalized (QRect_points sp pos))\<rparr>
      | None \<Rightarrow> ov)"

text \<open>
  With no start point, \<^verbatim>\<open>QtCore.QRect(None, end_point)\<close> in \<^verbatim>\<open>mouseReleaseEvent\<close> matches
  no overload of the constructor and PyQt5 raises \<^verbatim>\<open>TypeError\<close>.
\<close>

definition TypeError_QRect :: py_exc where
  "TypeError_QRect =
     \<lparr>kind = OtherException,
      message = lit ''QRect(): arguments did not match any overloaded call''\<rparr>"

datatype MouseEvent =
  Press MouseButton QPoint
| Move QPoint
| Release MouseButton QPoint

subsection \<open>Pixmaps\<close>

text \<open>
  A pixmap is its rows of pixels; its width and height are C \<^verbatim>\<open>int\<close>s. A pixmap without
  pixels is null. \<^verbatim>\<open>QPixmap.copy(rect)\<close> after Qt 5: a null pixmap yields a null pixmap;
  an empty rectangle copies the whole pixmap; any other rectangle is intersected with the
  pixmap's own rectangle and the pixels of the intersection are copied. What the copy holds
  when the rectangle does not meet the pixmap at all is left to the environment
  (\<open>copy_disjoint\<close> below).
\<close>

type_synonym QPixmap = "nat list list"

definition pm_height :: "QPixmap \<Rightarrow> int" where
  "pm_height pm = int (length pm)"

definition pm_width :: "QPixmap \<Rightarrow> int" where
  "pm_width pm = (case pm of [] \<Rightarrow> 0 | row # _ \<Rightarrow> int (length row))"

definition pm_isNull :: "QPixmap \<Rightarrow> bool" where
  "pm_isNull pm = (pm_width pm = 0 \<or> pm_height pm = 0)"

definition pm_rectangular :: "QPixmap \<Rightarrow> bool" where
  "pm_rectangular pm =
     (list_all (\<lambda>row. int (length row) = pm_width pm) pm \<and>
      pm_width pm \<le> 2147483647 \<and> pm_height pm \<le> 2147483647)"

definition rect_inside :: "QRect \<Rightarrow> QPixmap \<Rightarrow> bool" where
  "rect_inside r pm = (0 \<le> x1 r \<and> x2 r < pm_width pm \<and> 0 \<le> y1 r \<and> y2 r < pm_height pm)"

definition crop :: "QPixmap \<Rightarrow> QRect \<Rightarrow> QPixmap" where
  "crop pm r =
     map (\<lambda>row. take (nat (rect_width r)) (drop (nat (x1 r)) row))
         (take (nat (rect_height r)) (drop (nat (y1 r)) pm))"

definition intersected :: "QPixmap \<Rightarrow> QRect \<Rightarrow> QRect" where
  "intersected pm r =
     \<lparr>x1 = max 0 (x1 r), y1 = max 0 (y1 r),
      x2 = min (pm_width pm - 1) (x2 r), y2 = min (pm_height pm - 1) (y2 r)\<rparr>"

subsection \<open>The environment and the state\<close>

text \<open>
  The calls into the libraries whose results the program cannot determine, as oracles. Each
  may raise. \<open>primaryScreen_grabWindow\<close> is \<^verbatim>\<open>self.primaryScreen().grabWindow(0)\<close>, a call
  on the application object; \<open>save_and_open\<close> is the conversion of lines 81 to 84 (the
  resulting image holds the pixels of the pixmap); \<open>image_to_string\<close> takes the command
  \<^verbatim>\<open>pytesseract.pytesseract.tesseract_cmd\<close> it runs; \<open>write_raises\<close> tells for a string
  whether writing it to standard output raises.
\<close>

record environment =
  primaryScreen_grabWindow :: "ustr list \<Rightarrow> py_exc + QPixmap"
  copy_disjoint :: "QPixmap \<Rightarrow> QRect \<Rightarrow> QPixmap"
  save_and_open :: "QPixmap \<Rightarrow> py_exc option"
  image_to_string :: "ustr \<Rightarrow> QPixmap \<Rightarrow> py_exc + ustr"
  pyperclip_copy :: "ustr \<Rightarrow> py_exc option"
  write_raises :: "ustr \<Rightarrow> py_exc option"

definition QPixmap_copy :: "environment \<Rightarrow> QPixmap \<Rightarrow> QRect \<Rightarrow> QPixmap" where
  "QPixmap_copy env pm r =
     (if pm_isNull pm then []
      else if rect_isEmpty r then pm
      else if rect_isEmpty (intersected pm r) then copy_disjoint env pm r
      else crop pm (intersected pm r))"

datatype call =
  GrabWindow
| PixmapCopy QRect
| SaveAndOpen
| ImageToString ustr
| PyperclipCopy ustr
| HotkeyPress ustr
| HotkeyRelease ustr

fun operation :: "call \<Rightarrow> nat" where
  "operation GrabWindow = 0"
| "operation (PixmapCopy r) = 1"
| "operation SaveAndOpen = 2"
| "operation (ImageToString c) = 3"
| "operation (PyperclipCopy t) = 4"
| "operation (HotkeyPress k) = 5"
| "operation (HotkeyRelease k) = 6"

text \<open>
  What a widget does to the outside: it emits its signal with a rectangle, and it is closed.
  The number is the widget.
\<close>

datatype effect = Emit nat QRect | Close nat

text \<open>
  \<open>MainApp\<close>: the part the base class \<^verbatim>\<open>QApplication\<close> builds from the argument vector
  and the field \<^verbatim>\<open>overlay\<close>, a reference to a widget or \<^verbatim>\<open>None\<close>. The state of the
  running program: the application object, the widgets created so far, the module variable
  \<^verbatim>\<open>pytesseract.pytesseract.tesseract_cmd\<close>, the system clipboard, what was written to
  standard output, the library calls made, the signals emitted and the widgets closed, the
  exceptions no handler of the program caught, and whether the process was aborted.
\<close>

record MainApp =
  qt_arguments :: "ustr list"
  overlay :: "nat option"

record system =
  app :: MainApp
  widgets :: "ScreenshotOverlay list"
  tesseract_cmd :: ustr
  clipboard :: ustr
  stdout :: ustr
  calls :: "call list"
  trace :: "effect list"
  unhandled :: "py_exc list"
  aborted :: bool

definition log_call :: "call \<Rightarrow> system \<Rightarrow> system" where
  "log_call c s = s\<lparr>calls := calls s @ [c]\<rparr>"

text \<open>
  \<^verbatim>\<open>print(a, b, ...)\<close> writes its arguments to standard output one by one, a space between
  two of them and a newline at the end. A write that raises ends the print with that
  exception; what was written before it stays written.
\<close>

fun print_pieces :: "ustr list \<Rightarrow> ustr list" where
  "print_pieces [] = [[10]]"
| "print_pieces [a] = [a, [10]]"
| "print_pieces (a # b # rest) = a # [32] # print_pieces (b # rest)"

fun py_write_all :: "environment \<Rightarrow> ustr list \<Rightarrow> system \<Rightarrow> py_exc option \<times> system" where
  "py_write_all env [] s = (None, s)"
| "py_write_all env (p # ps) s =
     (case write_raises env p of
        Some e \<Rightarrow> (Some e, s)
      | None \<Rightarrow> py_write_all env ps (s\<lparr>stdout := stdout s @ p\<rparr>))"

definition py_print :: "environment \<Rightarrow> ustr list \<Rightarrow> system \<Rightarrow> py_exc option \<times> system" where
  "py_print env args s = py_write_all env (print_pieces args) s"

subsection \<open>MainApp\<close>

definition MainApp_init :: "ustr list \<Rightarrow> MainApp" where
  "MainApp_init args = \<lparr>qt_arguments = args, overlay = None\<rparr>"

definition overlay_shown :: "system \<Rightarrow> bool" where
  "overlay_shown s =
     (case overlay (app s) of
        None \<Rightarrow> False
      | Some i \<Rightarrow> i < length (widgets s) \<and> visible (widgets s ! i))"

definition start_overlay :: "system \<Rightarrow> system" where
  "start_overlay s =
     (if overlay_shown s then s
      else s\<lparr>widgets := widgets s @ [ScreenshotOverlay_init\<lparr>connections := 1, visible := True\<rparr>],
             app := (app s)\<lparr>overlay := Some (length (widgets s))\<rparr>\<rparr>)"

text \<open>Lines 76 to 78: the screen is grabbed and the rectangle copied out of the screenshot.\<close>

definition capture_and_crop :: "environment \<Rightarrow> QRect \<Rightarrow> system \<Rightarrow> py_exc + QPixmap" where
  "capture_and_crop env rect s =
     (case primaryScreen_grabWindow env (qt_arguments (app s)) of
        Inl e \<Rightarrow> Inl e
      | Inr screenshot \<Rightarrow> Inr (QPixmap_copy env screenshot rect))"

text \<open>
  The body of the \<^verbatim>\<open>try\<close> of \<^verbatim>\<open>handle_selection\<close>, the \<^verbatim>\<open>print\<close> of line 91
  included: the exception that left it, if any.
\<close>

definition try_body :: "environment \<Rightarrow> QRect \<Rightarrow> system \<Rightarrow> py_exc option \<times> system" where
  "try_body env rect s =
     (let s1 = log_call GrabWindow s
      in case capture_and_crop env rect s of
           Inl e \<Rightarrow> (Some e, s1)
         | Inr selected_pixmap \<Rightarrow>
             (let s2 = log_call SaveAndOpen (log_call (PixmapCopy rect) s1)
              in case save_and_open env selected_pixmap of
                   Some e \<Rightarrow> (Some e, s2)
                 | None \<Rightarrow>
                     (let s3 = log_call (ImageToString (tesseract_cmd s)) s2
                      in case image_to_string env (tesseract_cmd s) selected_pixmap of
                           Inl e \<Rightarrow> (Some e, s3)
                         | Inr text \<Rightarrow>
                             (let s4 = log_call (PyperclipCopy (py_strip text)) s3
                              in case pyperclip_copy env (py_strip text) of
                                   Some e \<Rightarrow> (Some e, s4)
                                 | None \<Rightarrow>
                                     py_print env
                                       [lit ''Extracted text copied to clipboard:'', py_strip text]
                                       (s4\<lparr>clipboard := py_strip text\<rparr>)))))"

text \<open>
  The \<^verbatim>\<open>except\<close> clauses: the \<^verbatim>\<open>print\<close> of a clause is not guarded, an exception it
  raises leaves \<^verbatim>\<open>handle_selection\<close>.
\<close>

definition handle_selection :: "environment \<Rightarrow> QRect \<Rightarrow> system \<Rightarrow> py_exc option \<times> system" where
  "handle_selection env rect s =
     (case try_body env rect s of
        (None, s') \<Rightarrow> (None, s')
      | (Some e, s') \<Rightarrow>
          if kind e = TesseractError
          then py_print env [lit ''OCR Error: '' @ message e] s'
          else if is_Exception e
          then py_print env [lit ''Error processing screenshot: '' @ message e] s'
          else (Some e, s'))"

subsection \<open>The signal and the release of the button\<close>

text \<open>
  \<^verbatim>\<open>selectionComplete.emit(rect)\<close> calls the connected slots, each
  \<^verbatim>\<open>handle_selection\<close>, one after the other before it returns. An exception that leaves a
  slot is not passed on to the code after \<^verbatim>\<open>emit\<close>: PyQt5 aborts the process, so nothing
  after the \<^verbatim>\<open>emit\<close> is run.
\<close>

fun run_slots :: "environment \<Rightarrow> QRect \<Rightarrow> nat \<Rightarrow> system \<Rightarrow> py_exc option \<times> system" where
  "run_slots env rect 0 s = (None, s)"
| "run_slots env rect (Suc n) s =
     (case handle_selection env rect s of
        (Some e, s') \<Rightarrow> (Some e, s')
      | (None, s') \<Rightarrow> run_slots env rect n s')"

definition emit_selectionComplete ::
  "environment \<Rightarrow> nat \<Rightarrow> QRect \<Rightarrow> system \<Rightarrow> py_exc option \<times> system" where
  "emit_selectionComplete env i rect s =
     run_slots env rect (connections (widgets s ! i)) (s\<lparr>trace := trace s @ [Emit i rect]\<rparr>)"

definition close_widget :: "nat \<Rightarrow> system \<Rightarrow> system" where
  "close_widget i s =
     s\<lparr>widgets := (widgets s)[i := (widgets s ! i)\<lparr>visible := False\<rparr>],
       trace := trace s @ [Close i]\<rparr>"

definition mouseReleaseEvent ::
  "environment \<Rightarrow> nat \<Rightarrow> MouseButton \<Rightarrow> QPoint \<Rightarrow> system \<Rightarrow> py_exc option \<times> system" where
  "mouseReleaseEvent env i button pos s =
     (if button = LeftButton
      then (let s1 = s\<lparr>widgets := (widgets s)
                         [i := (widgets s ! i)\<lparr>end_point := Some pos,
                                               rubber_band_visible := False\<rparr>]\<rparr>
            in case start_point (widgets s1 ! i) of
                 None \<Rightarrow> (Some TypeError_QRect, s1)
               | Some sp \<Rightarrow>
                   (case emit_selectionComplete env i (normalized (QRect_points sp pos)) s1 of
                      (Some e, s2) \<Rightarrow> (Some e, s2)
                    | (None, s2) \<Rightarrow> (None, close_widget i s2)))
      else (None, s))"

subsection \<open>The key handlers\<close>

text \<open>
  \<^verbatim>\<open>hotkey.press(key)\<close> of pynput either raises, or returns without a match, or finds the
  combination complete and calls \<^verbatim>\<open>on_activate\<close>, which calls \<^verbatim>\<open>app.start_overlay()\<close>.
  \<^verbatim>\<open>hotkey.release(key)\<close> raises or returns. The first \<^verbatim>\<open>print\<close> of each handler stands
  before its \<^verbatim>\<open>try\<close>, and the prints of the \<^verbatim>\<open>except\<close> clauses are not guarded. The
  argument \<open>key\<close> is \<^verbatim>\<open>str(key)\<close>.
\<close>

datatype hotkey_result = Raises py_exc | NoMatch | Activated

definition on_press ::
  "environment \<Rightarrow> hotkey_result \<Rightarrow> ustr \<Rightarrow> system \<Rightarrow> py_exc option \<times> system" where
  "on_press env hk key s =
     (case py_print env [lit ''Key pressed: '' @ key] s of
        (Some e, s0) \<Rightarrow> (Some e, s0)
      | (None, s0) \<Rightarrow>
          (let s1 = log_call (HotkeyPress key) s0
           in case hk of
                NoMatch \<Rightarrow> (None, s1)
              | Activated \<Rightarrow> (None, start_overlay s1)
              | Raises e \<Rightarrow>
                  if kind e = AttributeError
                  then py_print env [lit ''Invalid key pressed: '' @ message e] s1
                  else if is_Exception e
                  then py_print env [lit ''Error handling key press: '' @ message e] s1
                  else (Some e, s1)))"

definition on_release ::
  "environment \<Rightarrow> py_exc option \<Rightarrow> ustr \<Rightarrow> system \<Rightarrow> py_exc option \<times> system" where
  "on_release env hk key s =
     (case py_print env [lit ''Key released: '' @ key] s of
        (Some e, s0) \<Rightarrow> (Some e, s0)
      | (None, s0) \<Rightarrow>
          (let s1 = log_call (HotkeyRelease key) s0
           in case hk of
                None \<Rightarrow> (None, s1)
              | Some e \<Rightarrow>
                  if kind e = AttributeError
                  then py_print env [lit ''Invalid key released: '' @ message e] s1
                  else if is_Exception e
                  then py_print env [lit ''Error handling key release: '' @ message e] s1
                  else (Some e, s1)))"

subsection \<open>The running program\<close>

text \<open>
  The events of a run, each with the environment its handler finds: a key press or release
  seen by the listener, with what the hotkey matcher does with it, and a mouse event on one of
  the widgets. A handler is run to its end before the next event is taken. An exception that
  leaves a mouse handler or a slot aborts the process, and an aborted process takes no more
  events. An exception that leaves a key handler is recorded and the run goes on, and a mouse
  event reaches a widget whether it is visible or not: both admit more runs than the
  libraries do, which can only weaken what holds of every run.
\<close>

datatype event =
  KeyPress environment ustr hotkey_result
| KeyRelease environment ustr "py_exc option"
| Mouse environment nat MouseEvent

definition report :: "py_exc option \<Rightarrow> system \<Rightarrow> system" where
  "report exc s = (case exc of None \<Rightarrow> s | Some e \<Rightarrow> s\<lparr>unhandled := unhandled s @ [e]\<rparr>)"

definition abort_on :: "py_exc option \<Rightarrow> system \<Rightarrow> system" where
  "abort_on exc s =
     (case exc of None \<Rightarrow> s | Some e \<Rightarrow> s\<lparr>unhandled := unhandled s @ [e], aborted := True\<rparr>)"

fun deliver :: "environment \<Rightarrow> nat \<Rightarrow> MouseEvent \<Rightarrow> system \<Rightarrow> system" where
  "deliver env i (Press b p) s =
     s\<lparr>widgets := (widgets s)[i := mousePressEvent b p (widgets s ! i)]\<rparr>"
| "deliver env i (Move p) s =
     s\<lparr>widgets := (widgets s)[i := mouseMoveEvent p (widgets s ! i)]\<rparr>"
| "deliver env i (Release b p) s =
     (let (exc, s') = mouseReleaseEvent env i b p s in abort_on exc s')"

fun handle :: "event \<Rightarrow> system \<Rightarrow> system" where
  "handle (KeyPress env key hk) s = (let (exc, s') = on_press env hk key s in report exc s')"
| "handle (KeyRelease env key hk) s = (let (exc, s') = on_release env hk key s in report exc s')"
| "handle (Mouse env i ev) s = (if i < length (widgets s) then deliver env i ev s else s)"

definition step :: "event \<Rightarrow> system \<Rightarrow> system" where
  "step ev s = (if aborted s then s else handle ev s)"

fun run :: "event list \<Rightarrow> system \<Rightarrow> system" where
  "run [] s = s"
| "run (ev # evs) s = run evs (step ev s)"

text \<open>
  The start of the program. Lines 1 to 12 import the libraries; the assignment to
  \<^verbatim>\<open>pytesseract.pytesseract.tesseract_cmd\<close> in line 12 is a comment, and no line reads the
  process environment, so the command stays the one the library starts with (\<open>cmd\<close>).
  \<^verbatim>\<open>create_app\<close> hands \<^verbatim>\<open>sys.argv\<close> to \<^verbatim>\<open>MainApp\<close>.
\<close>

definition create_app :: "ustr list \<Rightarrow> MainApp" where
  "create_app argv = MainApp_init argv"

definition main_init :: "(ustr \<rightharpoonup> ustr) \<Rightarrow> ustr list \<Rightarrow> ustr \<Rightarrow> system" where
  "main_init environ argv cmd =
     \<lparr>app = create_app argv, widgets = [], tesseract_cmd = cmd, clipboard = [], stdout = [],
      calls = [], trace = [], unhandled = [], aborted = False\<rparr>"

subsection \<open>Notions the properties are stated with\<close>

text \<open>
  An exception leaves the capture, the conversion or the OCR call, that is, the \<^verbatim>\<open>try\<close>
  block is left before \<^verbatim>\<open>pyperclip.copy\<close> is reached.
\<close>

definition raises_before_copy :: "environment \<Rightarrow> QRect \<Rightarrow> system \<Rightarrow> bool" where
  "raises_before_copy env rect s =
     (case primaryScreen_grabWindow env (qt_arguments (app s)) of
        Inl e \<Rightarrow> True
      | Inr screenshot \<Rightarrow>
          (case save_and_open env (QPixmap_copy env screenshot rect) of
             Some e \<Rightarrow> True
           | None \<Rightarrow>
               (case image_to_string env (tesseract_cmd s) (QPixmap_copy env screenshot rect) of
                  Inl e \<Rightarrow> True
                | Inr text \<Rightarrow> False)))"


text \<open>Every write of a \<^verbatim>\<open>print\<close> of these arguments returns.\<close>

definition prints_ok :: "environment \<Rightarrow> ustr list \<Rightarrow> bool" where
  "prints_ok env args = list_all (\<lambda>p. write_raises env p = None) (print_pieces args)"

text \<open>The calls a handler added to the record of calls.\<close>

definition calls_since :: "system \<Rightarrow> system \<Rightarrow> call list" where
  "calls_since s s' = drop (length (calls s)) (calls s')"

fun is_clipboard_write :: "call \<Rightarrow> bool" where
  "is_clipboard_write (PyperclipCopy t) = True"
| "is_clipboard_write _ = False"


text \<open>The rectangles a widget emitted, and how often it was closed.\<close>

fun emitted :: "nat \<Rightarrow> effect list \<Rightarrow> QRect list" where
  "emitted i [] = []"
| "emitted i (Emit j r # es) = (if j = i then r # emitted i es else emitted i es)"
| "emitted i (Close j # es) = emitted i es"

fun closes :: "nat \<Rightarrow> effect list \<Rightarrow> nat" where
  "closes i [] = 0"
| "closes i (Emit j r # es) = closes i es"
| "closes i (Close j # es) = (if j = i then Suc (closes i es) else closes i es)"

fun is_left_button_event :: "event \<Rightarrow> bool" where
  "is_left_button_event (Mouse env i (Press b p)) = (b = LeftButton)"
| "is_left_button_event (Mouse env i (Release b p)) = (b = LeftButton)"
| "is_left_button_event _ = False"

text \<open>
  A point whose coordinates are less than \<open>2^30\<close> in absolute value: between two such
  points no difference of coordinates leaves the 32 bits.
\<close>

definition near_origin :: "QPoint \<Rightarrow> bool" where
  "near_origin p =
     (- 1073741824 < px p \<and> px p < 1073741824 \<and> - 1073741824 < py p \<and> py p < 1073741824)"

text \<open>The number of overlay widgets that are visible.\<close>

definition visible_count :: "system \<Rightarrow> nat" where
  "visible_count s = length (filter visible (widgets s))"




text \<open>The line an \<^verbatim>\<open>except\<close> clause prints for an exception.\<close>

definition selection_error_line :: "py_exc \<Rightarrow> ustr" where
  "selection_error_line e =
     (if kind e = TesseractError then lit ''OCR Error: '' else lit ''Error processing screenshot: '')
     @ message e"

definition press_error_line :: "py_exc \<Rightarrow> ustr" where
  "press_error_line e =
     (if kind e = AttributeError then lit ''Invalid key pressed: ''
      else lit ''Error handling key press: '') @ message e"

definition release_error_line :: "py_exc \<Rightarrow> ustr" where
  "release_error_line e =
     (if kind e = AttributeError then lit ''Invalid key released: ''
      else lit ''Error handling key release: '') @ message e"

text \<open>The exception of the first write that raises, if one does.\<close>

fun write_error :: "environment \<Rightarrow> ustr list \<Rightarrow> py_exc option" where
  "write_error env [] = None"
| "write_error env (p # ps) =
     (case write_raises env p of Some e \<Rightarrow> Some e | None \<Rightarrow> write_error env ps)"

text \<open>
  A state \<open>t\<close> reached from \<open>s\<close> with the left button down on widget \<open>i\<close> since it was
  pressed at \<open>p\<close>: the start point is \<open>p\<close>, nothing was emitted or closed since \<open>s\<close>, and
  the process runs.
\<close>

definition drag_pending :: "nat \<Rightarrow> QPoint \<Rightarrow> system \<Rightarrow> system \<Rightarrow> bool" where
  "drag_pending i p s t =
     (i < length (widgets t) \<and> start_point (widgets t ! i) = Some p \<and> \<not> aborted t \<and>
      trace t = trace s \<and> qt_arguments (app t) = qt_arguments (app s) \<and>
      tesseract_cmd t = tesseract_cmd s \<and>
      connections (widgets t ! i) = connections (widgets s ! i))"

text \<open>
  Every visible widget is the one the field \<^verbatim>\<open>overlay\<close> of the application refers to.
\<close>

definition single_shown :: "system \<Rightarrow> bool" where
  "single_shown s =
     (\<forall>j < length (widgets s). visible (widgets s ! j) \<longrightarrow> overlay (app s) = Some j)"


subsection \<open>Example inputs\<close>

text \<open>
  An environment in which the conversion, the clipboard write and every write to standard
  output succeed, with a given screen and a given OCR result; a screenshot of three by two
  pixels; a standard output that encodes ASCII only.
\<close>

definition example_env ::
  "(ustr list \<Rightarrow> py_exc + QPixmap) \<Rightarrow> (py_exc + ustr) \<Rightarrow> environment" where
  "example_env grab ocr =
     \<lparr>primaryScreen_grabWindow = grab,
      copy_disjoint = (\<lambda>pm r. pm),
      save_and_open = (\<lambda>pm. None),
      image_to_string = (\<lambda>cmd pm. ocr),
      pyperclip_copy = (\<lambda>t. None),
      write_raises = (\<lambda>p. None)\<rparr>"

definition example_screenshot :: QPixmap where
  "example_screenshot = [[1, 2, 3], [4, 5, 6]]"

definition ocr_failed :: py_exc where
  "ocr_failed = \<lparr>kind = TesseractError, message = lit ''failed''\<rparr>"

definition KeyboardInterrupt :: py_exc where
  "KeyboardInterrupt = \<lparr>kind = NotException, message = []\<rparr>"

definition UnicodeEncodeError :: py_exc where
  "UnicodeEncodeError = \<lparr>kind = OtherException, message = lit ''ordinal not in range(128)''\<rparr>"

definition ascii_only :: "ustr \<Rightarrow> py_exc option" where
  "ascii_only p = (if list_all (\<lambda>c. c < 128) p then None else Some UnicodeEncodeError)"

definition ascii_env ::
  "(ustr list \<Rightarrow> py_exc + QPixmap) \<Rightarrow> (py_exc + ustr) \<Rightarrow> environment" where
  "ascii_env grab ocr = (example_env grab ocr)\<lparr>write_raises := ascii_only\<rparr>"




text \<open>The program after the hotkey was pressed once: one overlay, shown.\<close>

definition one_overlay :: system where
  "one_overlay = start_overlay (main_init Map.empty [] (lit ''tesseract''))"

section \<open>Properties\<close>

subsection \<open>What the handlers leave unchanged\<close>

lemma wrap32_id: "- 2147483648 \<le> k \<Longrightarrow> k \<le> 2147483647 \<Longrightarrow> wrap32 k = k"
  by (simp add: wrap32_def)

lemma py_write_all_keeps:
  "app (snd (py_write_all env ps s)) = app s \<and>
   widgets (snd (py_write_all env ps s)) = widgets s \<and>
   tesseract_cmd (snd (py_write_all env ps s)) = tesseract_cmd s \<and>
   clipboard (snd (py_write_all env ps s)) = clipboard s \<and>
   calls (snd (py_write_all env ps s)) = calls s \<and>
   trace (snd (py_write_all env ps s)) = trace s \<and>
   unhandled (snd (py_write_all env ps s)) = unhandled s \<and>
   aborted (snd (py_write_all env ps s)) = aborted s"
  by (induction ps arbitrary: s) (auto split: option.splits)

lemma py_print_keeps:
  "app (snd (py_print env args s)) = app s"
  "widgets (snd (py_print env args s)) = widgets s"
  "tesseract_cmd (snd (py_print env args s)) = tesseract_cmd s"
  "clipboard (snd (py_print env args s)) = clipboard s"
  "calls (snd (py_print env args s)) = calls s"
  "trace (snd (py_print env args s)) = trace s"
  "unhandled (snd (py_print env args s)) = unhandled s"
  "aborted (snd (py_print env args s)) = aborted s"
  using py_write_all_keeps [of env "print_pieces args" s] by (simp_all add: py_print_def)

lemma py_write_all_ok:
  "list_all (\<lambda>p. write_raises env p = None) ps \<Longrightarrow>
   py_write_all env ps s = (None, s\<lparr>stdout := stdout s @ concat ps\<rparr>)"
  by (induction ps arbitrary: s) simp_all

lemma py_write_all_fails:
  "\<not> list_all (\<lambda>p. write_raises env p = None) ps \<Longrightarrow> fst (py_write_all env ps s) \<noteq> None"
  by (induction ps arbitrary: s) (auto split: option.splits)

lemma py_print_ok:
  "prints_ok env args \<Longrightarrow>
   py_print env args s = (None, s\<lparr>stdout := stdout s @ concat (print_pieces args)\<rparr>)"
  by (simp add: prints_ok_def py_print_def py_write_all_ok)

lemma py_print_fails: "\<not> prints_ok env args \<Longrightarrow> fst (py_print env args s) \<noteq> None"
  by (simp add: prints_ok_def py_print_def py_write_all_fails)

lemma try_body_keeps:
  "app (snd (try_body env rect s)) = app s"
  "widgets (snd (try_body env rect s)) = widgets s"
  "tesseract_cmd (snd (try_body env rect s)) = tesseract_cmd s"
  "trace (snd (try_body env rect s)) = trace s"
  "unhandled (snd (try_body env rect s)) = unhandled s"
  "aborted (snd (try_body env rect s)) = aborted s"
  by (auto simp: try_body_def log_call_def py_print_keeps Let_def split: sum.splits option.splits)

lemma handle_selection_keeps:
  "app (snd (handle_selection env rect s)) = app s"
  "widgets (snd (handle_selection env rect s)) = widgets s"
  "tesseract_cmd (snd (handle_selection env rect s)) = tesseract_cmd s"
  "trace (snd (handle_selection env rect s)) = trace s"
  "unhandled (snd (handle_selection env rect s)) = unhandled s"
  "aborted (snd (handle_selection env rect s)) = aborted s"
  using try_body_keeps [of env rect s]
  by (cases "try_body env rect s";
      auto simp: handle_selection_def py_print_keeps split: option.splits)+

lemma handle_selection_calls:
  "calls (snd (handle_selection env rect s)) = calls (snd (try_body env rect s))"
  by (cases "try_body env rect s")
     (auto simp: handle_selection_def py_print_keeps split: option.splits)

lemma handle_selection_clipboard:
  "clipboard (snd (handle_selection env rect s)) = clipboard (snd (try_body env rect s))"
  by (cases "try_body env rect s")
     (auto simp: handle_selection_def py_print_keeps split: option.splits)

subsection \<open>The clipboard when the pipeline fails\<close>

text \<open>
  Claim C10. When an exception leaves the capture, the conversion or the OCR call, the
  \<^verbatim>\<open>try\<close> block is left with that exception, the clipboard after
  \<^verbatim>\<open>handle_selection\<close> is the clipboard before it, and \<^verbatim>\<open>pyperclip.copy\<close> is not among the
  calls the run made.
\<close>

theorem clipboard_kept_on_early_failure:
  assumes "raises_before_copy env rect s"
  shows "fst (try_body env rect s) \<noteq> None \<and>
         clipboard (snd (handle_selection env rect s)) = clipboard s \<and>
         list_all (\<lambda>c. \<not> is_clipboard_write c)
           (calls_since s (snd (handle_selection env rect s)))"
  using assms
  by (auto simp: raises_before_copy_def handle_selection_calls handle_selection_clipboard
      try_body_def capture_and_crop_def calls_since_def
      log_call_def Let_def split: sum.splits option.splits)

theorem clipboard_kept_on_early_failure_witness:
  "raises_before_copy (example_env (\<lambda>a. Inr example_screenshot) (Inl ocr_failed))
     \<lparr>x1 = 0, y1 = 0, x2 = 1, y2 = 1\<rparr>
     ((main_init Map.empty [] (lit ''tesseract''))\<lparr>clipboard := lit ''old''\<rparr>) \<and>
   clipboard (snd (handle_selection (example_env (\<lambda>a. Inr example_screenshot) (Inl ocr_failed))
     \<lparr>x1 = 0, y1 = 0, x2 = 1, y2 = 1\<rparr>
     ((main_init Map.empty [] (lit ''tesseract''))\<lparr>clipboard := lit ''old''\<rparr>))) = lit ''old''"
proof -
  let ?E = "example_env (\<lambda>a. Inr example_screenshot) (Inl ocr_failed)"
  let ?R = "\<lparr>x1 = 0, y1 = 0, x2 = 1, y2 = 1\<rparr>"
  let ?S = "(main_init Map.empty [] (lit ''tesseract''))\<lparr>clipboard := lit ''old''\<rparr>"
  have h: "raises_before_copy ?E ?R ?S"
    by (simp add: raises_before_copy_def example_env_def)
  have c: "clipboard ?S = lit ''old''" by simp
  from clipboard_kept_on_early_failure [OF h] c h show ?thesis by simp
qed

subsection \<open>Stripping\<close>





subsection \<open>A run of handle_selection whose pipeline succeeds\<close>





subsection \<open>Failures\<close>

lemma py_print_result:
  "fst (py_print env args s) = None \<longleftrightarrow> prints_ok env args"
  using py_print_ok [of env args s] py_print_fails [of env args s] by (cases "prints_ok env args") auto

lemma py_print_line:
  "prints_ok env [line] \<Longrightarrow> py_print env [line] s = (None, s\<lparr>stdout := stdout s @ line @ [10]\<rparr>)"
  by (simp add: py_print_ok)

lemma try_body_calls:
  "distinct (map operation (calls_since s (snd (try_body env rect s))))"
  by (auto simp: try_body_def calls_since_def log_call_def py_print_keeps Let_def
      split: sum.splits option.splits)

lemma handle_selection_cases:
  "case fst (try_body env rect s) of
      None \<Rightarrow> fst (handle_selection env rect s) = None
    | Some e \<Rightarrow>
        if \<not> is_Exception e then fst (handle_selection env rect s) = Some e
        else if prints_ok env [selection_error_line e]
        then fst (handle_selection env rect s) = None \<and>
             stdout (snd (handle_selection env rect s)) =
               stdout (snd (try_body env rect s)) @ selection_error_line e @ [10]
        else fst (handle_selection env rect s) \<noteq> None"
proof (cases "try_body env rect s")
  case (Pair exc s')
  show ?thesis
  proof (cases exc)
    case None
    with Pair show ?thesis by (simp add: handle_selection_def)
  next
    case (Some e)
    show ?thesis
    proof (cases "is_Exception e")
      case False
      with Pair Some show ?thesis by (auto simp: handle_selection_def is_Exception_def)
    next
      case True
      have h: "handle_selection env rect s = py_print env [selection_error_line e] s'"
        using Pair Some True by (simp add: handle_selection_def selection_error_line_def)
      show ?thesis
      proof (cases "prints_ok env [selection_error_line e]")
        case ok: True
        from py_print_line [OF ok, of s'] h Pair Some True ok show ?thesis by simp
      next
        case bad: False
        from py_print_fails [OF bad, of s'] h Pair Some True bad show ?thesis by simp
      qed
    qed
  qed
qed

lemma on_press_cases:
  "if \<not> prints_ok env [lit ''Key pressed: '' @ key]
   then fst (on_press env hk key s) \<noteq> None \<and> calls_since s (snd (on_press env hk key s)) = []
   else calls_since s (snd (on_press env hk key s)) = [HotkeyPress key] \<and>
        (case hk of
           NoMatch \<Rightarrow> fst (on_press env hk key s) = None
         | Activated \<Rightarrow> fst (on_press env hk key s) = None
         | Raises x \<Rightarrow>
             if \<not> is_Exception x then fst (on_press env hk key s) = Some x
             else if prints_ok env [press_error_line x]
             then fst (on_press env hk key s) = None \<and>
                  stdout (snd (on_press env hk key s)) =
                    stdout s @ lit ''Key pressed: '' @ key @ [10] @ press_error_line x @ [10]
             else fst (on_press env hk key s) \<noteq> None)"
proof (cases "prints_ok env [lit ''Key pressed: '' @ key]")
  case False
  obtain exc s0 where p: "py_print env [lit ''Key pressed: '' @ key] s = (exc, s0)"
    by (cases "py_print env [lit ''Key pressed: '' @ key] s")
  with py_print_fails [OF False, of s] obtain e where e: "exc = Some e" by auto
  from py_print_keeps(5) [of env "[lit ''Key pressed: '' @ key]" s] p have "calls s0 = calls s" by simp
  with False p e show ?thesis by (simp add: on_press_def calls_since_def)
next
  case True
  let ?s0 = "s\<lparr>stdout := stdout s @ (lit ''Key pressed: '' @ key) @ [10]\<rparr>"
  let ?s1 = "log_call (HotkeyPress key) ?s0"
  have p: "py_print env [lit ''Key pressed: '' @ key] s = (None, ?s0)"
    by (rule py_print_line [OF True])
  show ?thesis
  proof (cases hk)
    case NoMatch
    with True p show ?thesis by (simp add: on_press_def calls_since_def log_call_def)
  next
    case Activated
    with True p show ?thesis
      by (simp add: on_press_def calls_since_def log_call_def start_overlay_def Let_def)
  next
    case (Raises x)
    show ?thesis
    proof (cases "is_Exception x")
      case False
      with True p Raises show ?thesis
        by (auto simp: on_press_def calls_since_def log_call_def is_Exception_def)
    next
      case ex: True
      have h: "on_press env hk key s = py_print env [press_error_line x] ?s1"
        using p Raises ex by (simp add: on_press_def press_error_line_def)
      have c: "calls_since s (snd (on_press env hk key s)) = [HotkeyPress key]"
        by (simp add: h py_print_keeps calls_since_def log_call_def)
      show ?thesis
      proof (cases "prints_ok env [press_error_line x]")
        case ok: True
        from py_print_line [OF ok, of ?s1] h c True Raises ex ok show ?thesis
          by (simp add: log_call_def)
      next
        case bad: False
        from py_print_fails [OF bad, of ?s1] h c True Raises ex bad show ?thesis by simp
      qed
    qed
  qed
qed

lemma on_release_cases:
  "if \<not> prints_ok env [lit ''Key released: '' @ key]
   then fst (on_release env hk key s) \<noteq> None \<and> calls_since s (snd (on_release env hk key s)) = []
   else calls_since s (snd (on_release env hk key s)) = [HotkeyRelease key] \<and>
        (case hk of
           None \<Rightarrow> fst (on_release env hk key s) = None
         | Some x \<Rightarrow>
             if \<not> is_Exception x then fst (on_release env hk key s) = Some x
             else if prints_ok env [release_error_line x]
             then fst (on_release env hk key s) = None \<and>
                  stdout (snd (on_release env hk key s)) =
                    stdout s @ lit ''Key released: '' @ key @ [10] @ release_error_line x @ [10]
             else fst (on_release env hk key s) \<noteq> None)"
proof (cases "prints_ok env [lit ''Key released: '' @ key]")
  case False
  obtain exc s0 where p: "py_print env [lit ''Key released: '' @ key] s = (exc, s0)"
    by (cases "py_print env [lit ''Key released: '' @ key] s")
  with py_print_fails [OF False, of s] obtain e where e: "exc = Some e" by auto
  from py_print_keeps(5) [of env "[lit ''Key released: '' @ key]" s] p have "calls s0 = calls s"
    by simp
  with False p e show ?thesis by (simp add: on_release_def calls_since_def)
next
  case True
  let ?s0 = "s\<lparr>stdout := stdout s @ (lit ''Key released: '' @ key) @ [10]\<rparr>"
  let ?s1 = "log_call (HotkeyRelease key) ?s0"
  have p: "py_print env [lit ''Key released: '' @ key] s = (None, ?s0)"
    by (rule py_print_line [OF True])
  show ?thesis
  proof (cases hk)
    case None
    with True p show ?thesis by (simp add: on_release_def calls_since_def log_call_def)
  next
    case (Some x)
    show ?thesis
    proof (cases "is_Exception x")
      case False
      with True p Some show ?thesis
        by (auto simp: on_release_def calls_since_def log_call_def is_Exception_def)
    next
      case ex: True
      have h: "on_release env hk key s = py_print env [release_error_line x] ?s1"
        using p Some ex by (simp add: on_release_def release_error_line_def)
      have c: "calls_since s (snd (on_release env hk key s)) = [HotkeyRelease key]"
        by (simp add: h py_print_keeps calls_since_def log_call_def)
      show ?thesis
      proof (cases "prints_ok env [release_error_line x]")
        case ok: True
        from py_print_line [OF ok, of ?s1] h c True Some ex ok show ?thesis
          by (simp add: log_call_def)
      next
        case bad: False
        from py_print_fails [OF bad, of ?s1] h c True Some ex bad show ?thesis by simp
      qed
    qed
  qed
qed

text \<open>
  Claim C3, as amended. An exception that leaves the \<^verbatim>\<open>try\<close> block of
  \<^verbatim>\<open>handle_selection\<close>, or that \<^verbatim>\<open>hotkey.press\<close> or \<^verbatim>\<open>hotkey.release\<close> raises in
  \<^verbatim>\<open>on_press\<close> or \<^verbatim>\<open>on_release\<close>, is caught exactly when it is an instance of
  \<^verbatim>\<open>Exception\<close>. Then the \<^verbatim>\<open>except\<close> clause prints one line for it; if every write of
  that print returns, the line is on standard output and the handler returns normally, and if
  not, the exception of the print leaves the handler. An exception that is not an instance of
  \<^verbatim>\<open>Exception\<close> leaves the handler. The first \<^verbatim>\<open>print\<close> of \<^verbatim>\<open>on_press\<close> and
  \<^verbatim>\<open>on_release\<close> stands before the \<^verbatim>\<open>try\<close>: if it raises, the exception leaves the
  handler and the hotkey matcher is not called. In every case no library operation is called a
  second time.
\<close>

theorem exceptions_caught_by_class:
  "(case fst (try_body env rect s) of
      None \<Rightarrow> fst (handle_selection env rect s) = None
    | Some e \<Rightarrow>
        if \<not> is_Exception e then fst (handle_selection env rect s) = Some e
        else if prints_ok env [selection_error_line e]
        then fst (handle_selection env rect s) = None \<and>
             stdout (snd (handle_selection env rect s)) =
               stdout (snd (try_body env rect s)) @ selection_error_line e @ [10]
        else fst (handle_selection env rect s) \<noteq> None) \<and>
   distinct (map operation (calls_since s (snd (handle_selection env rect s)))) \<and>
   (if \<not> prints_ok env [lit ''Key pressed: '' @ key]
    then fst (on_press env hk key s) \<noteq> None \<and> calls_since s (snd (on_press env hk key s)) = []
    else calls_since s (snd (on_press env hk key s)) = [HotkeyPress key] \<and>
         (case hk of
            NoMatch \<Rightarrow> fst (on_press env hk key s) = None
          | Activated \<Rightarrow> fst (on_press env hk key s) = None
          | Raises x \<Rightarrow>
              if \<not> is_Exception x then fst (on_press env hk key s) = Some x
              else if prints_ok env [press_error_line x]
              then fst (on_press env hk key s) = None \<and>
                   stdout (snd (on_press env hk key s)) =
                     stdout s @ lit ''Key pressed: '' @ key @ [10] @ press_error_line x @ [10]
              else fst (on_press env hk key s) \<noteq> None)) \<and>
   (if \<not> prints_ok env [lit ''Key released: '' @ key]
    then fst (on_release env rk key s) \<noteq> None \<and>
         calls_since s (snd (on_release env rk key s)) = []
    else calls_since s (snd (on_release env rk key s)) = [HotkeyRelease key] \<and>
         (case rk of
            None \<Rightarrow> fst (on_release env rk key s) = None
          | Some x \<Rightarrow>
              if \<not> is_Exception x then fst (on_release env rk key s) = Some x
              else if prints_ok env [release_error_line x]
              then fst (on_release env rk key s) = None \<and>
                   stdout (snd (on_release env rk key s)) =
                     stdout s @ lit ''Key released: '' @ key @ [10] @ release_error_line x @ [10]
              else fst (on_release env rk key s) \<noteq> None))"
proof -
  have "distinct (map operation (calls_since s (snd (handle_selection env rect s))))"
    using try_body_calls [of s env rect] by (simp add: calls_since_def handle_selection_calls)
  with handle_selection_cases [of env rect s] on_press_cases [of env key hk s]
    on_release_cases [of env key rk s]
  show ?thesis by blast
qed

text \<open>
  The claim as it was stated fails in each of these ways: an interrupted OCR call
  (\<^verbatim>\<open>KeyboardInterrupt\<close> is not an instance of \<^verbatim>\<open>Exception\<close>) leaves
  \<^verbatim>\<open>handle_selection\<close>; with a standard output that encodes ASCII only, the first print of
  \<^verbatim>\<open>on_press\<close> and of \<^verbatim>\<open>on_release\<close> raises for the key U+00E9 and the exception leaves
  the handler although the hotkey matcher would not raise; and the print of the \<^verbatim>\<open>except\<close>
  clause raises for an OCR error whose text is not ASCII and leaves \<^verbatim>\<open>handle_selection\<close>.
\<close>

theorem uncaught_exceptions_leave_handlers:
  "fst (handle_selection (example_env (\<lambda>a. Inr example_screenshot) (Inl KeyboardInterrupt))
         \<lparr>x1 = 0, y1 = 0, x2 = 1, y2 = 1\<rparr> (main_init Map.empty [] (lit ''tesseract'')))
     = Some KeyboardInterrupt \<and>
   fst (on_press (ascii_env (\<lambda>a. Inr example_screenshot) (Inr [])) NoMatch [233]
         (main_init Map.empty [] (lit ''tesseract''))) = Some UnicodeEncodeError \<and>
   fst (on_release (ascii_env (\<lambda>a. Inr example_screenshot) (Inr [])) None [233]
         (main_init Map.empty [] (lit ''tesseract''))) = Some UnicodeEncodeError \<and>
   fst (handle_selection
         (ascii_env (\<lambda>a. Inr example_screenshot)
            (Inl \<lparr>kind = TesseractError, message = [233]\<rparr>))
         \<lparr>x1 = 0, y1 = 0, x2 = 1, y2 = 1\<rparr> (main_init Map.empty [] (lit ''tesseract'')))
     = Some UnicodeEncodeError"
  by (simp add: handle_selection_def try_body_def capture_and_crop_def on_press_def on_release_def
      ascii_env_def example_env_def ascii_only_def py_print_def
      KeyboardInterrupt_def is_Exception_def lit_def Let_def)

subsection \<open>Capture and crop\<close>

lemma crop_height:
  assumes "0 \<le> y1 r" "y1 r \<le> y2 r" "y2 r < pm_height pm" "pm_height pm \<le> 2147483647"
  shows "pm_height (crop pm r) = rect_height r"
proof -
  from assms have h: "rect_height r = y2 r - y1 r + 1"
    by (simp add: rect_height_def wrap32_id)
  with assms show ?thesis by (auto simp: crop_def pm_height_def)
qed

lemma crop_first_row:
  assumes "0 \<le> y1 r" "y1 r \<le> y2 r" "y2 r < pm_height pm" "pm_height pm \<le> 2147483647"
  shows "crop pm r \<noteq> [] \<and>
         hd (crop pm r) = take (nat (rect_width r)) (drop (nat (x1 r)) (pm ! nat (y1 r)))"
proof -
  have k: "nat (y1 r) < length pm" using assms by (simp add: pm_height_def)
  from assms have "rect_height r = y2 r - y1 r + 1" by (simp add: rect_height_def wrap32_id)
  with assms have n: "0 < nat (rect_height r)" by simp
  from k have d: "drop (nat (y1 r)) pm = pm ! nat (y1 r) # drop (Suc (nat (y1 r))) pm"
    by (rule Cons_nth_drop_Suc [symmetric])
  from n obtain m where m: "nat (rect_height r) = Suc m" by (cases "nat (rect_height r)") auto
  show ?thesis by (simp add: crop_def d m)
qed

lemma rectangular_row:
  assumes "pm_rectangular pm" "k < length pm"
  shows "int (length (pm ! k)) = pm_width pm"
  using assms by (simp add: pm_rectangular_def list_all_length)

lemma crop_width:
  assumes "pm_rectangular pm" "\<not> rect_isEmpty r" "rect_inside r pm"
  shows "pm_width (crop pm r) = rect_width r"
proof -
  from assms have y: "0 \<le> y1 r" "y1 r \<le> y2 r" "y2 r < pm_height pm" "pm_height pm \<le> 2147483647"
    and x: "0 \<le> x1 r" "x1 r \<le> x2 r" "x2 r < pm_width pm" "pm_width pm \<le> 2147483647"
    by (auto simp: rect_isEmpty_def rect_inside_def pm_rectangular_def)
  from crop_first_row [OF y] obtain row rest where
    c: "crop pm r = row # rest" and
    h: "row = take (nat (rect_width r)) (drop (nat (x1 r)) (pm ! nat (y1 r)))"
    by (cases "crop pm r") auto
  have "nat (y1 r) < length pm" using y by (simp add: pm_height_def)
  from rectangular_row [OF assms(1) this] have l: "int (length (pm ! nat (y1 r))) = pm_width pm" .
  from x have w: "rect_width r = x2 r - x1 r + 1" by (simp add: rect_width_def wrap32_id)
  from h l x w have "int (length row) = rect_width r" by simp
  with c show ?thesis by (simp add: pm_width_def)
qed

lemma inside_intersected:
  assumes "rect_inside r pm"
  shows "intersected pm r = r"
  using assms by (simp add: intersected_def rect_inside_def)

lemma inside_not_null:
  assumes "\<not> rect_isEmpty r" "rect_inside r pm"
  shows "\<not> pm_isNull pm"
  using assms by (auto simp: rect_isEmpty_def rect_inside_def pm_isNull_def)

text \<open>
  Claim C5, as amended. For every selection rectangle that is not empty and lies inside the
  grabbed screenshot (a pixmap whose rows have one length), the capture-and-crop step of lines
  76 to 78 yields a pixmap that has the width and the height of the rectangle.
\<close>

theorem crop_has_rect_size:
  assumes "primaryScreen_grabWindow env (qt_arguments (app s)) = Inr shot"
    "pm_rectangular shot" "\<not> rect_isEmpty rect" "rect_inside rect shot"
  shows "\<exists>pm. capture_and_crop env rect s = Inr pm \<and>
              pm_width pm = rect_width rect \<and> pm_height pm = rect_height rect"
proof -
  from assms have y: "0 \<le> y1 rect" "y1 rect \<le> y2 rect" "y2 rect < pm_height shot"
    "pm_height shot \<le> 2147483647"
    by (auto simp: rect_isEmpty_def rect_inside_def pm_rectangular_def)
  have c: "QPixmap_copy env shot rect = crop shot rect"
    using assms(3,4) inside_not_null [OF assms(3,4)] inside_intersected [OF assms(4)]
    by (simp add: QPixmap_copy_def)
  from assms(1) c have "capture_and_crop env rect s = Inr (crop shot rect)"
    by (simp add: capture_and_crop_def)
  with crop_width [OF assms(2,3,4)] crop_height [OF y] show ?thesis by simp
qed

theorem crop_has_rect_size_witness:
  "primaryScreen_grabWindow (example_env (\<lambda>a. Inr example_screenshot) (Inr []))
     (qt_arguments (app (main_init Map.empty [] (lit ''tesseract'')))) = Inr example_screenshot \<and>
   pm_rectangular example_screenshot \<and>
   \<not> rect_isEmpty \<lparr>x1 = 1, y1 = 0, x2 = 2, y2 = 1\<rparr> \<and>
   rect_inside \<lparr>x1 = 1, y1 = 0, x2 = 2, y2 = 1\<rparr> example_screenshot \<and>
   capture_and_crop (example_env (\<lambda>a. Inr example_screenshot) (Inr []))
     \<lparr>x1 = 1, y1 = 0, x2 = 2, y2 = 1\<rparr> (main_init Map.empty [] (lit ''tesseract'')) =
     Inr [[2, 3], [5, 6]] \<and>
   rect_width \<lparr>x1 = 1, y1 = 0, x2 = 2, y2 = 1\<rparr> = 2 \<and>
   rect_height \<lparr>x1 = 1, y1 = 0, x2 = 2, y2 = 1\<rparr> = 2"
proof -
  let ?E = "example_env (\<lambda>a. Inr example_screenshot) (Inr [])"
  let ?S = "main_init Map.empty [] (lit ''tesseract'')"
  let ?r = "\<lparr>x1 = 1, y1 = 0, x2 = 2, y2 = 1\<rparr>"
  have g: "primaryScreen_grabWindow ?E (qt_arguments (app ?S)) = Inr example_screenshot"
    by (simp add: example_env_def)
  have a: "pm_rectangular example_screenshot"
    by (simp add: pm_rectangular_def example_screenshot_def pm_width_def pm_height_def)
  have b: "\<not> rect_isEmpty ?r" by (simp add: rect_isEmpty_def)
  have c: "rect_inside ?r example_screenshot"
    by (simp add: rect_inside_def example_screenshot_def pm_width_def pm_height_def)
  have e: "rect_width ?r = 2" "rect_height ?r = 2"
    by (simp_all add: rect_width_def rect_height_def wrap32_def)
  have d: "capture_and_crop ?E ?r ?S = Inr [[2, 3], [5, 6]]"
    using e by (simp add: capture_and_crop_def QPixmap_copy_def crop_def example_screenshot_def
        example_env_def pm_isNull_def pm_width_def pm_height_def rect_isEmpty_def intersected_def)
  from crop_has_rect_size [OF g a b c] g a b c d e show ?thesis by simp
qed

text \<open>
  The claim as it was stated fails in two ways, both for rectangles the overlay emits. When the
  button is released one pixel to the left of where it was pressed, the rectangle has width 0
  and \<^verbatim>\<open>QPixmap.copy\<close> returns the whole screenshot, here three pixels wide. When the
  button is released beyond the right edge of the screenshot, the rectangle is four pixels
  wide and the copy, cut at the edge, two.
\<close>

theorem crop_size_differs_from_rect:
  "normalized (QRect_points \<lparr>px = 2, py = 0\<rparr> \<lparr>px = 1, py = 1\<rparr>) =
     \<lparr>x1 = 2, y1 = 0, x2 = 1, y2 = 1\<rparr> \<and>
   normalized (QRect_points \<lparr>px = 1, py = 0\<rparr> \<lparr>px = 4, py = 1\<rparr>) =
     \<lparr>x1 = 1, y1 = 0, x2 = 4, y2 = 1\<rparr> \<and>
   capture_and_crop (example_env (\<lambda>a. Inr example_screenshot) (Inr []))
      \<lparr>x1 = 2, y1 = 0, x2 = 1, y2 = 1\<rparr> (main_init Map.empty [] (lit ''tesseract'')) =
     Inr example_screenshot \<and>
   rect_width \<lparr>x1 = 2, y1 = 0, x2 = 1, y2 = 1\<rparr> = 0 \<and>
   pm_width example_screenshot = 3 \<and>
   capture_and_crop (example_env (\<lambda>a. Inr example_screenshot) (Inr []))
      \<lparr>x1 = 1, y1 = 0, x2 = 4, y2 = 1\<rparr> (main_init Map.empty [] (lit ''tesseract'')) =
     Inr [[2, 3], [5, 6]] \<and>
   \<not> rect_isEmpty \<lparr>x1 = 1, y1 = 0, x2 = 4, y2 = 1\<rparr> \<and>
   rect_width \<lparr>x1 = 1, y1 = 0, x2 = 4, y2 = 1\<rparr> = 4 \<and>
   pm_width [[2, 3], [5, 6]] = 2"
  by (simp add: capture_and_crop_def QPixmap_copy_def crop_def example_screenshot_def
      example_env_def pm_isNull_def pm_width_def pm_height_def rect_isEmpty_def intersected_def
      rect_width_def rect_height_def wrap32_def normalized_def QRect_points_def)

subsection \<open>Rectangles and the release of the button\<close>

lemma normalized_nonneg:
  assumes "near_origin p" "near_origin q"
  shows "0 \<le> rect_width (normalized (QRect_points p q)) \<and>
         0 \<le> rect_height (normalized (QRect_points p q))"
  using assms
  by (auto simp: near_origin_def normalized_def QRect_points_def rect_width_def rect_height_def
      wrap32_id Let_def)

lemma emitted_append: "emitted i (xs @ ys) = emitted i xs @ emitted i ys"
  by (induction i xs rule: emitted.induct) simp_all

lemma closes_append: "closes i (xs @ ys) = closes i xs + closes i ys"
  by (induction i xs rule: closes.induct) simp_all

lemma run_slots_keeps:
  "app (snd (run_slots env rect n s)) = app s \<and>
   widgets (snd (run_slots env rect n s)) = widgets s \<and>
   tesseract_cmd (snd (run_slots env rect n s)) = tesseract_cmd s \<and>
   trace (snd (run_slots env rect n s)) = trace s \<and>
   unhandled (snd (run_slots env rect n s)) = unhandled s \<and>
   aborted (snd (run_slots env rect n s)) = aborted s"
proof (induction n arbitrary: s)
  case 0
  show ?case by simp
next
  case (Suc n)
  obtain exc s' where h: "handle_selection env rect s = (exc, s')"
    by (cases "handle_selection env rect s")
  with handle_selection_keeps [of env rect s]
  have k: "app s' = app s" "widgets s' = widgets s" "tesseract_cmd s' = tesseract_cmd s"
    "trace s' = trace s" "unhandled s' = unhandled s" "aborted s' = aborted s" by simp_all
  show ?case
  proof (cases exc)
    case None
    with h k Suc [of s'] show ?thesis by simp
  next
    case (Some e)
    with h k show ?thesis by simp
  qed
qed

lemma emit_keeps:
  "app (snd (emit_selectionComplete env i rect s)) = app s"
  "widgets (snd (emit_selectionComplete env i rect s)) = widgets s"
  "tesseract_cmd (snd (emit_selectionComplete env i rect s)) = tesseract_cmd s"
  "trace (snd (emit_selectionComplete env i rect s)) = trace s @ [Emit i rect]"
  "unhandled (snd (emit_selectionComplete env i rect s)) = unhandled s"
  "aborted (snd (emit_selectionComplete env i rect s)) = aborted s"
  using run_slots_keeps [of env rect "connections (widgets s ! i)" "s\<lparr>trace := trace s @ [Emit i rect]\<rparr>"]
  by (simp_all add: emit_selectionComplete_def)

lemma release_trace:
  assumes "i < length (widgets s)" "start_point (widgets s ! i) = Some p"
  shows "trace (snd (mouseReleaseEvent env i LeftButton q s)) =
           trace s @ Emit i (normalized (QRect_points p q)) #
             (if fst (mouseReleaseEvent env i LeftButton q s) = None then [Close i] else [])"
proof -
  let ?s1 = "s\<lparr>widgets := (widgets s)
                 [i := (widgets s ! i)\<lparr>end_point := Some q, rubber_band_visible := False\<rparr>]\<rparr>"
  let ?r = "normalized (QRect_points p q)"
  have sp: "start_point (widgets ?s1 ! i) = Some p" using assms by simp
  obtain exc s2 where e: "emit_selectionComplete env i ?r ?s1 = (exc, s2)"
    by (cases "emit_selectionComplete env i ?r ?s1")
  with emit_keeps(4) [of env i ?r ?s1] have t: "trace s2 = trace s @ [Emit i ?r]" by simp
  show ?thesis
  proof (cases exc)
    case None
    with e sp t show ?thesis by (simp add: mouseReleaseEvent_def Let_def close_widget_def)
  next
    case (Some x)
    with e sp t show ?thesis by (simp add: mouseReleaseEvent_def Let_def)
  qed
qed

lemma one_overlay_eq: "one_overlay =
   \<lparr>app = \<lparr>qt_arguments = [], overlay = Some 0\<rparr>,
    widgets = [ScreenshotOverlay_init\<lparr>connections := 1, visible := True\<rparr>],
    tesseract_cmd = lit ''tesseract'', clipboard = [], stdout = [],
    calls = [], trace = [], unhandled = [], aborted = False\<rparr>"
  by (simp add: one_overlay_def start_overlay_def main_init_def overlay_shown_def create_app_def
      MainApp_init_def)

text \<open>
  Claim C2, as amended. For every press position \<open>p\<close> and release position \<open>q\<close> of the left
  button whose coordinates are less than \<open>2^30\<close> in absolute value, whatever their relative
  position, the release emits exactly one rectangle, the normalized rectangle of the two
  points, and its width and height are not negative. The rectangle a mouse move to \<open>q\<close> gives
  the rubber band is the same, and a press of the left button at \<open>p\<close> sets the start point
  \<open>p\<close>.
\<close>

theorem emitted_rect_normalized:
  assumes "i < length (widgets s)" "start_point (widgets s ! i) = Some p"
    "near_origin p" "near_origin q"
  shows "emitted i (trace (snd (mouseReleaseEvent env i LeftButton q s))) =
           emitted i (trace s) @ [normalized (QRect_points p q)] \<and>
         0 \<le> rect_width (normalized (QRect_points p q)) \<and>
         0 \<le> rect_height (normalized (QRect_points p q)) \<and>
         rubber_band_geometry (mouseMoveEvent q (widgets s ! i)) =
           Some (normalized (QRect_points p q)) \<and>
         start_point (mousePressEvent LeftButton p ov) = Some p"
proof -
  have "emitted i (trace (snd (mouseReleaseEvent env i LeftButton q s))) =
           emitted i (trace s) @ [normalized (QRect_points p q)]"
    by (simp add: release_trace [OF assms(1,2)] emitted_append)
  moreover have "rubber_band_geometry (mouseMoveEvent q (widgets s ! i)) =
           Some (normalized (QRect_points p q))"
    using assms(2) by (simp add: mouseMoveEvent_def)
  moreover have "start_point (mousePressEvent LeftButton p ov) = Some p"
    by (simp add: mousePressEvent_def)
  ultimately show ?thesis using normalized_nonneg [OF assms(3,4)] by simp
qed

theorem emitted_rect_normalized_witness:
  "0 < length (widgets (deliver (example_env (\<lambda>a. Inr example_screenshot) (Inr [])) 0
         (Press LeftButton \<lparr>px = 5, py = 7\<rparr>) one_overlay)) \<and>
   start_point (widgets (deliver (example_env (\<lambda>a. Inr example_screenshot) (Inr [])) 0
         (Press LeftButton \<lparr>px = 5, py = 7\<rparr>) one_overlay) ! 0) = Some \<lparr>px = 5, py = 7\<rparr> \<and>
   near_origin \<lparr>px = 5, py = 7\<rparr> \<and> near_origin \<lparr>px = 2, py = 9\<rparr> \<and>
   emitted 0 (trace (snd (mouseReleaseEvent
      (example_env (\<lambda>a. Inr example_screenshot) (Inr [])) 0 LeftButton \<lparr>px = 2, py = 9\<rparr>
      (deliver (example_env (\<lambda>a. Inr example_screenshot) (Inr [])) 0
         (Press LeftButton \<lparr>px = 5, py = 7\<rparr>) one_overlay)))) =
     [\<lparr>x1 = 2, y1 = 7, x2 = 5, y2 = 9\<rparr>] \<and>
   rect_width \<lparr>x1 = 2, y1 = 7, x2 = 5, y2 = 9\<rparr> = 4"
proof -
  let ?E = "example_env (\<lambda>a. Inr example_screenshot) (Inr [])"
  let ?s = "deliver ?E 0 (Press LeftButton \<lparr>px = 5, py = 7\<rparr>) one_overlay"
  have a: "0 < length (widgets ?s)" by (simp add: one_overlay_eq)
  have b: "start_point (widgets ?s ! 0) = Some \<lparr>px = 5, py = 7\<rparr>"
    by (simp add: one_overlay_eq mousePressEvent_def)
  have c: "near_origin \<lparr>px = 5, py = 7\<rparr>" "near_origin \<lparr>px = 2, py = 9\<rparr>"
    by (simp_all add: near_origin_def)
  have t: "trace ?s = []" by (simp add: one_overlay_eq)
  have n: "normalized (QRect_points \<lparr>px = 5, py = 7\<rparr> \<lparr>px = 2, py = 9\<rparr>) =
      \<lparr>x1 = 2, y1 = 7, x2 = 5, y2 = 9\<rparr>"
    by (simp add: normalized_def QRect_points_def wrap32_def)
  have w: "rect_width \<lparr>x1 = 2, y1 = 7, x2 = 5, y2 = 9\<rparr> = 4"
    by (simp add: rect_width_def wrap32_def)
  from emitted_rect_normalized [OF a b c, of ?E] a b c t n w show ?thesis by simp
qed

text \<open>
  The claim as it was stated, for every pair of points, fails where the 32 bits of a
  coordinate are left: for a press at \<open>(0, 0)\<close> and a release at the largest point, the
  emitted rectangle is not swapped and its width and height are \<open>-2^31\<close>.
\<close>

theorem emitted_rect_width_wraps:
  "emitted 0 (trace (snd (mouseReleaseEvent
      (example_env (\<lambda>a. Inr example_screenshot) (Inr [])) 0 LeftButton
      \<lparr>px = 2147483647, py = 2147483647\<rparr>
      (deliver (example_env (\<lambda>a. Inr example_screenshot) (Inr [])) 0
         (Press LeftButton \<lparr>px = 0, py = 0\<rparr>) one_overlay)))) =
     [\<lparr>x1 = 0, y1 = 0, x2 = 2147483647, y2 = 2147483647\<rparr>] \<and>
   rect_width \<lparr>x1 = 0, y1 = 0, x2 = 2147483647, y2 = 2147483647\<rparr> = - 2147483648 \<and>
   rect_height \<lparr>x1 = 0, y1 = 0, x2 = 2147483647, y2 = 2147483647\<rparr> = - 2147483648"
proof -
  let ?E = "example_env (\<lambda>a. Inr example_screenshot) (Inr [])"
  let ?s = "deliver ?E 0 (Press LeftButton \<lparr>px = 0, py = 0\<rparr>) one_overlay"
  have a: "0 < length (widgets ?s)" by (simp add: one_overlay_eq)
  have b: "start_point (widgets ?s ! 0) = Some \<lparr>px = 0, py = 0\<rparr>"
    by (simp add: one_overlay_eq mousePressEvent_def)
  have t: "trace ?s = []" by (simp add: one_overlay_eq)
  have n: "normalized (QRect_points \<lparr>px = 0, py = 0\<rparr> \<lparr>px = 2147483647, py = 2147483647\<rparr>) =
      \<lparr>x1 = 0, y1 = 0, x2 = 2147483647, y2 = 2147483647\<rparr>"
    by (simp add: normalized_def QRect_points_def wrap32_def)
  have w: "rect_width \<lparr>x1 = 0, y1 = 0, x2 = 2147483647, y2 = 2147483647\<rparr> = - 2147483648"
    "rect_height \<lparr>x1 = 0, y1 = 0, x2 = 2147483647, y2 = 2147483647\<rparr> = - 2147483648"
    by (simp_all add: rect_width_def rect_height_def wrap32_def)
  from release_trace [OF a b, of ?E "\<lparr>px = 2147483647, py = 2147483647\<rparr>"] t n w
  show ?thesis by (simp add: emitted_append)
qed

subsection \<open>The drag gesture\<close>

lemma py_write_all_error: "fst (py_write_all env ps s) = write_error env ps"
  by (induction ps arbitrary: s) (auto split: option.splits)

lemma py_print_error: "fst (py_print env args s) = write_error env (print_pieces args)"
  by (simp add: py_print_def py_write_all_error)

lemma try_body_result:
  assumes "qt_arguments (app t) = qt_arguments (app s)" "tesseract_cmd t = tesseract_cmd s"
  shows "fst (try_body env rect t) = fst (try_body env rect s)"
  using assms
  by (auto simp: try_body_def capture_and_crop_def py_print_error Let_def
      split: sum.splits option.splits)

lemma handle_selection_result:
  assumes "qt_arguments (app t) = qt_arguments (app s)" "tesseract_cmd t = tesseract_cmd s"
  shows "fst (handle_selection env rect t) = fst (handle_selection env rect s)"
proof -
  obtain e1 t' where a: "try_body env rect t = (e1, t')" by (cases "try_body env rect t")
  obtain e2 s' where b: "try_body env rect s = (e2, s')" by (cases "try_body env rect s")
  from try_body_result [OF assms, of env rect] a b have "e1 = e2" by simp
  with a b show ?thesis
    by (auto simp: handle_selection_def py_print_error split: option.splits)
qed

lemma run_slots_result:
  assumes "qt_arguments (app t) = qt_arguments (app s)" "tesseract_cmd t = tesseract_cmd s"
  shows "fst (run_slots env rect n t) =
           (if n = 0 then None else fst (handle_selection env rect s))"
  using assms
proof (induction n arbitrary: t)
  case 0
  show ?case by simp
next
  case (Suc n)
  obtain exc t' where h: "handle_selection env rect t = (exc, t')"
    by (cases "handle_selection env rect t")
  from handle_selection_result [OF Suc.prems, of env rect] h
  have r: "fst (handle_selection env rect s) = exc" by simp
  from handle_selection_keeps(1,3) [of env rect t] h Suc.prems
  have k: "qt_arguments (app t') = qt_arguments (app s)" "tesseract_cmd t' = tesseract_cmd s"
    by simp_all
  show ?case
  proof (cases exc)
    case None
    with h r Suc.IH [OF k] show ?thesis by simp
  next
    case (Some e)
    with h r show ?thesis by simp
  qed
qed

lemma drag_pending_cong:
  assumes "drag_pending i p s t" "widgets t' = widgets t" "trace t' = trace t"
    "aborted t' = aborted t" "app t' = app t" "tesseract_cmd t' = tesseract_cmd t"
  shows "drag_pending i p s t'"
  using assms by (simp add: drag_pending_def)

lemma drag_pending_start_overlay:
  assumes "drag_pending i p s t"
  shows "drag_pending i p s (start_overlay t)"
  using assms by (auto simp: drag_pending_def start_overlay_def nth_append)

lemma drag_pending_report:
  assumes "drag_pending i p s t"
  shows "drag_pending i p s (report exc t)"
  using assms by (auto simp: drag_pending_def report_def split: option.splits)

lemma drag_pending_on_press:
  assumes "drag_pending i p s t"
  shows "drag_pending i p s (snd (on_press env hk key t))"
proof -
  obtain exc t0 where pr: "py_print env [lit ''Key pressed: '' @ key] t = (exc, t0)"
    by (cases "py_print env [lit ''Key pressed: '' @ key] t")
  with py_print_keeps [of env "[lit ''Key pressed: '' @ key]" t]
  have k: "widgets t0 = widgets t" "trace t0 = trace t" "aborted t0 = aborted t"
    "app t0 = app t" "tesseract_cmd t0 = tesseract_cmd t" by simp_all
  from drag_pending_cong [OF assms k] have d0: "drag_pending i p s t0" .
  then have d1: "drag_pending i p s (log_call (HotkeyPress key) t0)"
    by (rule drag_pending_cong) (simp_all add: log_call_def)
  have dp: "drag_pending i p s (snd (py_print env m (log_call (HotkeyPress key) t0)))" for m
    using d1 by (rule drag_pending_cong) (simp_all add: py_print_keeps)
  show ?thesis
  proof (cases exc)
    case (Some e)
    with pr d0 show ?thesis by (simp add: on_press_def)
  next
    case None
    with pr d1 dp drag_pending_start_overlay [OF d1] show ?thesis
      by (cases hk) (auto simp: on_press_def Let_def)
  qed
qed

lemma drag_pending_on_release:
  assumes "drag_pending i p s t"
  shows "drag_pending i p s (snd (on_release env hk key t))"
proof -
  obtain exc t0 where pr: "py_print env [lit ''Key released: '' @ key] t = (exc, t0)"
    by (cases "py_print env [lit ''Key released: '' @ key] t")
  with py_print_keeps [of env "[lit ''Key released: '' @ key]" t]
  have k: "widgets t0 = widgets t" "trace t0 = trace t" "aborted t0 = aborted t"
    "app t0 = app t" "tesseract_cmd t0 = tesseract_cmd t" by simp_all
  from drag_pending_cong [OF assms k] have d0: "drag_pending i p s t0" .
  then have d1: "drag_pending i p s (log_call (HotkeyRelease key) t0)"
    by (rule drag_pending_cong) (simp_all add: log_call_def)
  have dp: "drag_pending i p s (snd (py_print env m (log_call (HotkeyRelease key) t0)))" for m
    using d1 by (rule drag_pending_cong) (simp_all add: py_print_keeps)
  show ?thesis
  proof (cases exc)
    case (Some e)
    with pr d0 show ?thesis by (simp add: on_release_def)
  next
    case None
    with pr d1 dp show ?thesis
      by (cases hk) (auto simp: on_release_def Let_def)
  qed
qed

lemma drag_pending_step:
  assumes "drag_pending i p s t" "\<not> is_left_button_event ev"
  shows "drag_pending i p s (step ev t)"
proof -
  from assms(1) have na: "\<not> aborted t" by (simp add: drag_pending_def)
  show ?thesis
  proof (cases ev)
    case (KeyPress env key hk)
    obtain exc t' where o: "on_press env hk key t = (exc, t')" by (cases "on_press env hk key t")
    with drag_pending_on_press [OF assms(1), of env hk key] have "drag_pending i p s t'" by simp
    from drag_pending_report [OF this, of exc] o KeyPress na show ?thesis by (simp add: step_def)
  next
    case (KeyRelease env key hk)
    obtain exc t' where o: "on_release env hk key t = (exc, t')"
      by (cases "on_release env hk key t")
    with drag_pending_on_release [OF assms(1), of env hk key] have "drag_pending i p s t'" by simp
    from drag_pending_report [OF this, of exc] o KeyRelease na show ?thesis by (simp add: step_def)
  next
    case (Mouse env j mev)
    show ?thesis
    proof (cases mev)
      case (Press b q)
      with Mouse assms show ?thesis
        by (auto simp: step_def drag_pending_def mousePressEvent_def nth_list_update)
    next
      case (Move q)
      with Mouse assms show ?thesis
        by (auto simp: step_def drag_pending_def mouseMoveEvent_def nth_list_update
            split: option.splits)
    next
      case (Release b q)
      with Mouse assms show ?thesis
        by (auto simp: step_def mouseReleaseEvent_def abort_on_def)
    qed
  qed
qed

lemma drag_pending_run:
  assumes "drag_pending i p s t" "list_all (\<lambda>ev. \<not> is_left_button_event ev) evs"
  shows "drag_pending i p s (run evs t)"
  using assms
proof (induction evs arbitrary: t)
  case Nil
  then show ?case by simp
next
  case (Cons ev evs)
  from Cons.prems have "drag_pending i p s (step ev t)" by (simp add: drag_pending_step)
  with Cons show ?case by simp
qed

lemma drag_pending_press:
  assumes "i < length (widgets s)" "\<not> aborted s"
  shows "drag_pending i p s (step (Mouse env i (Press LeftButton p)) s)"
  using assms by (simp add: step_def drag_pending_def mousePressEvent_def)

lemma release_result:
  assumes "i < length (widgets t)" "start_point (widgets t ! i) = Some p"
    "qt_arguments (app t) = qt_arguments (app s)" "tesseract_cmd t = tesseract_cmd s"
    "connections (widgets t ! i) = connections (widgets s ! i)"
  shows "fst (mouseReleaseEvent env i LeftButton q t) =
           (if connections (widgets s ! i) = 0 then None
            else fst (handle_selection env (normalized (QRect_points p q)) s))"
proof -
  let ?t1 = "t\<lparr>widgets := (widgets t)
                 [i := (widgets t ! i)\<lparr>end_point := Some q, rubber_band_visible := False\<rparr>]\<rparr>"
  let ?r = "normalized (QRect_points p q)"
  have sp: "start_point (widgets ?t1 ! i) = Some p" using assms by simp
  have c: "connections (widgets ?t1 ! i) = connections (widgets s ! i)" using assms by simp
  have "fst (emit_selectionComplete env i ?r ?t1) =
          (if connections (widgets s ! i) = 0 then None else fst (handle_selection env ?r s))"
    unfolding emit_selectionComplete_def c
    by (rule run_slots_result) (simp_all add: assms)
  then show ?thesis using sp
    by (cases "emit_selectionComplete env i ?r ?t1")
       (auto simp: mouseReleaseEvent_def Let_def split: option.splits)
qed

lemma release_aborted:
  assumes "\<not> aborted t"
  shows "aborted (snd (mouseReleaseEvent env i b q t)) = False"
proof -
  let ?t1 = "t\<lparr>widgets := (widgets t)
                 [i := (widgets t ! i)\<lparr>end_point := Some q, rubber_band_visible := False\<rparr>]\<rparr>"
  have "aborted (snd (emit_selectionComplete env i r ?t1)) = False" for r
    using assms by (simp add: emit_keeps)
  then show ?thesis using assms
    by (auto simp: mouseReleaseEvent_def Let_def close_widget_def split: option.splits prod.splits)
       (metis snd_conv)+
qed

lemma run_append: "run (xs @ ys) s = run ys (run xs s)"
  by (induction xs arbitrary: s) simp_all

lemma pending_release:
  assumes "drag_pending i p s t"
  shows "trace (step (Mouse env i (Release LeftButton q)) t) =
           trace s @ Emit i (normalized (QRect_points p q)) #
             (if aborted (step (Mouse env i (Release LeftButton q)) t) then [] else [Close i]) \<and>
         aborted (step (Mouse env i (Release LeftButton q)) t) =
           (connections (widgets s ! i) \<noteq> 0 \<and>
            fst (handle_selection env (normalized (QRect_points p q)) s) \<noteq> None) \<and>
         (\<not> aborted (step (Mouse env i (Release LeftButton q)) t) \<longrightarrow>
            \<not> visible (widgets (step (Mouse env i (Release LeftButton q)) t) ! i))"
proof -
  from assms have a: "i < length (widgets t)" "start_point (widgets t ! i) = Some p"
    "\<not> aborted t" "trace t = trace s" "qt_arguments (app t) = qt_arguments (app s)"
    "tesseract_cmd t = tesseract_cmd s"
    "connections (widgets t ! i) = connections (widgets s ! i)"
    by (simp_all add: drag_pending_def)
  obtain exc t' where m: "mouseReleaseEvent env i LeftButton q t = (exc, t')"
    by (cases "mouseReleaseEvent env i LeftButton q t")
  have st: "step (Mouse env i (Release LeftButton q)) t = abort_on exc t'"
    using a(1,3) m by (simp add: step_def)
  from release_trace [OF a(1,2), of env q] m a(4)
  have tr: "trace t' = trace s @ Emit i (normalized (QRect_points p q)) #
              (if exc = None then [Close i] else [])" by simp
  from release_aborted [OF a(3), of env i LeftButton q] m have ab: "\<not> aborted t'" by simp
  from release_result [OF a(1,2,5,6,7), of env q] m
  have ex: "exc = (if connections (widgets s ! i) = 0 then None
                   else fst (handle_selection env (normalized (QRect_points p q)) s))" by simp
  have ab2: "aborted (abort_on exc t') = (exc \<noteq> None)"
    using ab by (cases exc) (simp_all add: abort_on_def)
  have tr2: "trace (abort_on exc t') = trace t'"
    by (cases exc) (simp_all add: abort_on_def)
  have vis: "\<not> visible (widgets t' ! i)" if "exc = None"
  proof -
    let ?t1 = "t\<lparr>widgets := (widgets t)
                 [i := (widgets t ! i)\<lparr>end_point := Some q, rubber_band_visible := False\<rparr>]\<rparr>"
    let ?r = "normalized (QRect_points p q)"
    have sp: "start_point (widgets ?t1 ! i) = Some p" using a by simp
    obtain e2 t2 where e: "emit_selectionComplete env i ?r ?t1 = (e2, t2)"
      by (cases "emit_selectionComplete env i ?r ?t1")
    with emit_keeps(2) [of env i ?r ?t1] have w: "widgets t2 = widgets ?t1" by simp
    from m e sp that have "e2 = None" "t' = close_widget i t2"
      by (auto simp: mouseReleaseEvent_def Let_def split: option.splits)
    with w a(1) show ?thesis by (simp add: close_widget_def)
  qed
  have vis2: "exc = None \<Longrightarrow> widgets (abort_on exc t') = widgets t'"
    by (simp add: abort_on_def)
  show ?thesis
    unfolding st using tr ab2 tr2 ex vis vis2 by auto
qed

text \<open>
  Claim C6, as amended. A completed drag on a widget of the running program is a press of the
  left button, then any events that are not a press or a release of the left button (moves,
  other buttons, keys), then the release of the left button. Over such a gesture the signal
  \<^verbatim>\<open>selectionComplete\<close> is emitted exactly once, with the normalized rectangle of the two
  points. \<^verbatim>\<open>close()\<close> is called exactly once, after which the widget is not visible,
  unless the process was aborted during the emission: that is the case exactly when a slot is
  connected and an exception leaves \<^verbatim>\<open>handle_selection\<close>, and then \<^verbatim>\<open>close()\<close> is not
  called.
\<close>

theorem drag_emits_once_closes_unless_aborted:
  assumes "i < length (widgets s)" "\<not> aborted s"
    "list_all (\<lambda>ev. \<not> is_left_button_event ev) mids"
  shows "emitted i (trace (run (Mouse env0 i (Press LeftButton p) # mids @
                                [Mouse env i (Release LeftButton q)]) s)) =
           emitted i (trace s) @ [normalized (QRect_points p q)] \<and>
         closes i (trace (run (Mouse env0 i (Press LeftButton p) # mids @
                               [Mouse env i (Release LeftButton q)]) s)) =
           closes i (trace s) +
           (if aborted (run (Mouse env0 i (Press LeftButton p) # mids @
                             [Mouse env i (Release LeftButton q)]) s) then 0 else 1) \<and>
         aborted (run (Mouse env0 i (Press LeftButton p) # mids @
                       [Mouse env i (Release LeftButton q)]) s) =
           (connections (widgets s ! i) \<noteq> 0 \<and>
            fst (handle_selection env (normalized (QRect_points p q)) s) \<noteq> None) \<and>
         (\<not> aborted (run (Mouse env0 i (Press LeftButton p) # mids @
                          [Mouse env i (Release LeftButton q)]) s) \<longrightarrow>
            \<not> visible (widgets (run (Mouse env0 i (Press LeftButton p) # mids @
                                     [Mouse env i (Release LeftButton q)]) s) ! i))"
proof -
  let ?t = "run mids (step (Mouse env0 i (Press LeftButton p)) s)"
  let ?u = "step (Mouse env i (Release LeftButton q)) ?t"
  have r: "run (Mouse env0 i (Press LeftButton p) # mids @ [Mouse env i (Release LeftButton q)]) s
             = ?u"
    by (simp add: run_append)
  have "drag_pending i p s ?t"
    by (rule drag_pending_run [OF drag_pending_press [OF assms(1,2)] assms(3)])
  from pending_release [OF this, of env q] show ?thesis
    unfolding r by (auto simp: emitted_append closes_append)
qed

theorem drag_emits_once_closes_unless_aborted_witness:
  "0 < length (widgets one_overlay) \<and> \<not> aborted one_overlay \<and>
   list_all (\<lambda>ev. \<not> is_left_button_event ev)
     [Mouse (example_env (\<lambda>a. Inr example_screenshot) (Inr (lit ''Hi''))) 0
        (Move \<lparr>px = 1, py = 0\<rparr>)] \<and>
   \<not> aborted (run (Mouse (example_env (\<lambda>a. Inr example_screenshot) (Inr (lit ''Hi''))) 0
                     (Press LeftButton \<lparr>px = 0, py = 0\<rparr>) #
        [Mouse (example_env (\<lambda>a. Inr example_screenshot) (Inr (lit ''Hi''))) 0
           (Move \<lparr>px = 1, py = 0\<rparr>)] @
        [Mouse (example_env (\<lambda>a. Inr example_screenshot) (Inr (lit ''Hi''))) 0
           (Release LeftButton \<lparr>px = 1, py = 1\<rparr>)]) one_overlay) \<and>
   closes 0 (trace (run (Mouse (example_env (\<lambda>a. Inr example_screenshot) (Inr (lit ''Hi''))) 0
                     (Press LeftButton \<lparr>px = 0, py = 0\<rparr>) #
        [Mouse (example_env (\<lambda>a. Inr example_screenshot) (Inr (lit ''Hi''))) 0
           (Move \<lparr>px = 1, py = 0\<rparr>)] @
        [Mouse (example_env (\<lambda>a. Inr example_screenshot) (Inr (lit ''Hi''))) 0
           (Release LeftButton \<lparr>px = 1, py = 1\<rparr>)]) one_overlay)) = 1 \<and>
   \<not> visible (widgets (run (Mouse (example_env (\<lambda>a. Inr example_screenshot) (Inr (lit ''Hi''))) 0
                     (Press LeftButton \<lparr>px = 0, py = 0\<rparr>) #
        [Mouse (example_env (\<lambda>a. Inr example_screenshot) (Inr (lit ''Hi''))) 0
           (Move \<lparr>px = 1, py = 0\<rparr>)] @
        [Mouse (example_env (\<lambda>a. Inr example_screenshot) (Inr (lit ''Hi''))) 0
           (Release LeftButton \<lparr>px = 1, py = 1\<rparr>)]) one_overlay) ! 0)"
proof -
  let ?E = "example_env (\<lambda>a. Inr example_screenshot) (Inr (lit ''Hi''))"
  let ?mids = "[Mouse ?E 0 (Move \<lparr>px = 1, py = 0\<rparr>)]"
  let ?r = "normalized (QRect_points \<lparr>px = 0, py = 0\<rparr> \<lparr>px = 1, py = 1\<rparr>)"
  have a: "0 < length (widgets one_overlay)" by (simp add: one_overlay_eq)
  have b: "\<not> aborted one_overlay" by (simp add: one_overlay_eq)
  have c: "list_all (\<lambda>ev. \<not> is_left_button_event ev) ?mids" by simp
  have h: "fst (handle_selection ?E ?r one_overlay) = None"
    by (simp add: handle_selection_def try_body_def capture_and_crop_def example_env_def
        py_print_def Let_def)
  have e: "closes 0 (trace one_overlay) = 0" by (simp add: one_overlay_eq)
  from drag_emits_once_closes_unless_aborted [OF a b c, of ?E "\<lparr>px = 0, py = 0\<rparr>" ?E "\<lparr>px = 1, py = 1\<rparr>"] a b c h e
  show ?thesis by simp
qed

text \<open>
  The claim as it was stated fails when an exception leaves the slot: \<^verbatim>\<open>emit()\<close> runs
  \<^verbatim>\<open>handle_selection\<close> before \<^verbatim>\<open>close()\<close> is reached. With an interrupted OCR call the
  signal is emitted once, the process is aborted and the overlay is never closed.
\<close>

theorem drag_aborted_before_close:
  "emitted 0 (trace (run
      [Mouse (example_env (\<lambda>a. Inr example_screenshot) (Inl KeyboardInterrupt)) 0
         (Press LeftButton \<lparr>px = 0, py = 0\<rparr>),
       Mouse (example_env (\<lambda>a. Inr example_screenshot) (Inl KeyboardInterrupt)) 0
         (Release LeftButton \<lparr>px = 1, py = 1\<rparr>)] one_overlay)) =
     [\<lparr>x1 = 0, y1 = 0, x2 = 1, y2 = 1\<rparr>] \<and>
   closes 0 (trace (run
      [Mouse (example_env (\<lambda>a. Inr example_screenshot) (Inl KeyboardInterrupt)) 0
         (Press LeftButton \<lparr>px = 0, py = 0\<rparr>),
       Mouse (example_env (\<lambda>a. Inr example_screenshot) (Inl KeyboardInterrupt)) 0
         (Release LeftButton \<lparr>px = 1, py = 1\<rparr>)] one_overlay)) = 0 \<and>
   aborted (run
      [Mouse (example_env (\<lambda>a. Inr example_screenshot) (Inl KeyboardInterrupt)) 0
         (Press LeftButton \<lparr>px = 0, py = 0\<rparr>),
       Mouse (example_env (\<lambda>a. Inr example_screenshot) (Inl KeyboardInterrupt)) 0
         (Release LeftButton \<lparr>px = 1, py = 1\<rparr>)] one_overlay)"
  by (simp add: one_overlay_eq step_def mousePressEvent_def mouseReleaseEvent_def
      emit_selectionComplete_def handle_selection_def try_body_def capture_and_crop_def
      example_env_def KeyboardInterrupt_def is_Exception_def abort_on_def log_call_def
      normalized_def QRect_points_def wrap32_def ScreenshotOverlay_init_def Let_def)

subsection \<open>What a run leaves unchanged\<close>

lemma start_overlay_keeps:
  "qt_arguments (app (start_overlay s)) = qt_arguments (app s)"
  "tesseract_cmd (start_overlay s) = tesseract_cmd s"
  "calls (start_overlay s) = calls s"
  by (simp_all add: start_overlay_def)

lemma report_keeps:
  "app (report exc s) = app s" "widgets (report exc s) = widgets s"
  "tesseract_cmd (report exc s) = tesseract_cmd s" "calls (report exc s) = calls s"
  by (auto simp: report_def split: option.splits)

lemma abort_on_keeps:
  "app (abort_on exc s) = app s" "widgets (abort_on exc s) = widgets s"
  "tesseract_cmd (abort_on exc s) = tesseract_cmd s" "calls (abort_on exc s) = calls s"
  by (auto simp: abort_on_def split: option.splits)

lemma on_press_keeps:
  "qt_arguments (app (snd (on_press env hk key s))) = qt_arguments (app s) \<and>
   tesseract_cmd (snd (on_press env hk key s)) = tesseract_cmd s"
proof -
  obtain exc s0 where pr: "py_print env [lit ''Key pressed: '' @ key] s = (exc, s0)"
    by (cases "py_print env [lit ''Key pressed: '' @ key] s")
  with py_print_keeps [of env "[lit ''Key pressed: '' @ key]" s]
  have k: "app s0 = app s" "tesseract_cmd s0 = tesseract_cmd s" by simp_all
  show ?thesis
  proof (cases exc)
    case (Some e)
    with pr k show ?thesis by (simp add: on_press_def)
  next
    case None
    with pr k show ?thesis
      by (cases hk)
         (auto simp: on_press_def Let_def log_call_def py_print_keeps start_overlay_keeps)
  qed
qed

lemma on_release_keeps:
  "app (snd (on_release env hk key s)) = app s \<and>
   widgets (snd (on_release env hk key s)) = widgets s \<and>
   tesseract_cmd (snd (on_release env hk key s)) = tesseract_cmd s"
proof -
  obtain exc s0 where pr: "py_print env [lit ''Key released: '' @ key] s = (exc, s0)"
    by (cases "py_print env [lit ''Key released: '' @ key] s")
  with py_print_keeps [of env "[lit ''Key released: '' @ key]" s]
  have k: "app s0 = app s" "widgets s0 = widgets s" "tesseract_cmd s0 = tesseract_cmd s"
    by simp_all
  show ?thesis
  proof (cases exc)
    case (Some e)
    with pr k show ?thesis by (simp add: on_release_def)
  next
    case None
    with pr k show ?thesis
      by (cases hk) (auto simp: on_release_def Let_def log_call_def py_print_keeps)
  qed
qed

lemma release_keeps:
  "app (snd (mouseReleaseEvent env i b q s)) = app s \<and>
   tesseract_cmd (snd (mouseReleaseEvent env i b q s)) = tesseract_cmd s"
proof -
  let ?s1 = "s\<lparr>widgets := (widgets s)
                 [i := (widgets s ! i)\<lparr>end_point := Some q, rubber_band_visible := False\<rparr>]\<rparr>"
  have e: "app (snd (emit_selectionComplete env i r ?s1)) = app s \<and>
           tesseract_cmd (snd (emit_selectionComplete env i r ?s1)) = tesseract_cmd s" for r
    by (simp add: emit_keeps)
  show ?thesis
  proof (cases "b = LeftButton")
    case False
    then show ?thesis by (simp add: mouseReleaseEvent_def)
  next
    case True
    show ?thesis
    proof (cases "start_point (widgets ?s1 ! i)")
      case None
      with True show ?thesis by (simp add: mouseReleaseEvent_def Let_def)
    next
      case (Some sp)
      obtain exc s2 where m: "emit_selectionComplete env i (normalized (QRect_points sp q)) ?s1 = (exc, s2)"
        by (cases "emit_selectionComplete env i (normalized (QRect_points sp q)) ?s1")
      with e [of "normalized (QRect_points sp q)"]
      have "app s2 = app s" "tesseract_cmd s2 = tesseract_cmd s" by simp_all
      with True Some m show ?thesis
        by (cases exc) (simp_all add: mouseReleaseEvent_def Let_def close_widget_def)
    qed
  qed
qed

lemma step_keeps:
  "qt_arguments (app (step ev s)) = qt_arguments (app s) \<and>
   tesseract_cmd (step ev s) = tesseract_cmd s"
proof (cases "aborted s")
  case True
  then show ?thesis by (simp add: step_def)
next
  case False
  show ?thesis
  proof (cases ev)
    case (KeyPress env key hk)
    with False on_press_keeps [of env hk key s] show ?thesis
      by (cases "on_press env hk key s") (simp add: step_def report_keeps)
  next
    case (KeyRelease env key hk)
    with False on_release_keeps [of env hk key s] show ?thesis
      by (cases "on_release env hk key s") (simp add: step_def report_keeps)
  next
    case (Mouse env i mev)
    show ?thesis
    proof (cases mev)
      case (Press b q)
      with Mouse False show ?thesis by (simp add: step_def)
    next
      case (Move q)
      with Mouse False show ?thesis by (simp add: step_def)
    next
      case (Release b q)
      with Mouse False release_keeps [of env i b q s] show ?thesis
        by (cases "mouseReleaseEvent env i b q s") (simp add: step_def abort_on_keeps)
    qed
  qed
qed

lemma run_keeps:
  "qt_arguments (app (run evs s)) = qt_arguments (app s) \<and>
   tesseract_cmd (run evs s) = tesseract_cmd s"
  by (induction evs arbitrary: s) (simp_all add: step_keeps)

lemma release_end_point:
  assumes "i < length (widgets s)"
  shows "end_point (widgets (snd (mouseReleaseEvent env i LeftButton q s)) ! i) = Some q \<and>
         start_point (widgets (snd (mouseReleaseEvent env i LeftButton q s)) ! i) =
           start_point (widgets s ! i) \<and>
         rubber_band_geometry (widgets (snd (mouseReleaseEvent env i LeftButton q s)) ! i) =
           rubber_band_geometry (widgets s ! i)"
proof -
  let ?s1 = "s\<lparr>widgets := (widgets s)
                 [i := (widgets s ! i)\<lparr>end_point := Some q, rubber_band_visible := False\<rparr>]\<rparr>"
  show ?thesis
  proof (cases "start_point (widgets ?s1 ! i)")
    case None
    with assms show ?thesis by (simp add: mouseReleaseEvent_def Let_def)
  next
    case (Some sp)
    obtain exc s2 where m: "emit_selectionComplete env i (normalized (QRect_points sp q)) ?s1 = (exc, s2)"
      by (cases "emit_selectionComplete env i (normalized (QRect_points sp q)) ?s1")
    with emit_keeps(2) [of env i "normalized (QRect_points sp q)" ?s1]
    have "widgets s2 = widgets ?s1" by simp
    with Some m assms show ?thesis
      by (cases exc) (simp_all add: mouseReleaseEvent_def Let_def close_widget_def)
  qed
qed

text \<open>
  Claim C8, as amended. \<^verbatim>\<open>handle_selection\<close> stores nothing: it leaves the application
  object, the widgets and the module variable as they were, so neither the rectangle nor the
  captured image nor the extracted text is kept by it (the text goes to the system clipboard
  and to standard output). No run changes a field of \<^verbatim>\<open>MainApp\<close> other than
  \<^verbatim>\<open>overlay\<close>. What is kept is kept by the overlay: \<^verbatim>\<open>mouseReleaseEvent\<close> stores the
  release position in \<^verbatim>\<open>end_point\<close> and leaves \<^verbatim>\<open>start_point\<close> and the geometry of the
  rubber band as they are, in a widget the application still refers to.
\<close>

theorem handle_selection_stores_nothing:
  assumes "i < length (widgets s)"
  shows "app (snd (handle_selection env rect s)) = app s \<and>
         widgets (snd (handle_selection env rect s)) = widgets s \<and>
         tesseract_cmd (snd (handle_selection env rect s)) = tesseract_cmd s \<and>
         qt_arguments (app (run evs s)) = qt_arguments (app s) \<and>
         tesseract_cmd (run evs s) = tesseract_cmd s \<and>
         end_point (widgets (snd (mouseReleaseEvent env i LeftButton q s)) ! i) = Some q \<and>
         start_point (widgets (snd (mouseReleaseEvent env i LeftButton q s)) ! i) =
           start_point (widgets s ! i) \<and>
         rubber_band_geometry (widgets (snd (mouseReleaseEvent env i LeftButton q s)) ! i) =
           rubber_band_geometry (widgets s ! i)"
  using handle_selection_keeps(1,2,3) [of env rect s] run_keeps [of evs s]
    release_end_point [OF assms, of env q]
  by simp

theorem handle_selection_stores_nothing_witness:
  "0 < length (widgets one_overlay) \<and>
   end_point (widgets (snd (mouseReleaseEvent
      (example_env (\<lambda>a. Inr example_screenshot) (Inr (lit ''Hi''))) 0 LeftButton
      \<lparr>px = 1, py = 1\<rparr> one_overlay)) ! 0) = Some \<lparr>px = 1, py = 1\<rparr> \<and>
   app (snd (handle_selection (example_env (\<lambda>a. Inr example_screenshot) (Inr (lit ''Hi'')))
      \<lparr>x1 = 0, y1 = 0, x2 = 1, y2 = 1\<rparr> one_overlay)) = app one_overlay"
proof -
  have a: "0 < length (widgets one_overlay)" by (simp add: one_overlay_eq)
  from handle_selection_stores_nothing [OF a, of "example_env (\<lambda>a. Inr example_screenshot) (Inr (lit ''Hi''))"
      "\<lparr>x1 = 0, y1 = 0, x2 = 1, y2 = 1\<rparr>" "[]" "\<lparr>px = 1, py = 1\<rparr>"] a
  show ?thesis by simp
qed

text \<open>
  The claim as it was stated fails: after a drag from \<open>(0, 0)\<close> to \<open>(1, 1)\<close> has been handled
  and \<^verbatim>\<open>handle_selection\<close> has returned, the field \<^verbatim>\<open>overlay\<close> still refers to the closed
  widget, and that widget holds the two corners of the selection and, as the geometry of its
  rubber band, the very rectangle that was emitted.
\<close>

theorem overlay_keeps_selection_points:
  "\<not> aborted (run
      [Mouse (example_env (\<lambda>a. Inr example_screenshot) (Inr (lit ''Hi''))) 0
         (Press LeftButton \<lparr>px = 0, py = 0\<rparr>),
       Mouse (example_env (\<lambda>a. Inr example_screenshot) (Inr (lit ''Hi''))) 0
         (Move \<lparr>px = 1, py = 1\<rparr>),
       Mouse (example_env (\<lambda>a. Inr example_screenshot) (Inr (lit ''Hi''))) 0
         (Release LeftButton \<lparr>px = 1, py = 1\<rparr>)] one_overlay) \<and>
   overlay (app (run
      [Mouse (example_env (\<lambda>a. Inr example_screenshot) (Inr (lit ''Hi''))) 0
         (Press LeftButton \<lparr>px = 0, py = 0\<rparr>),
       Mouse (example_env (\<lambda>a. Inr example_screenshot) (Inr (lit ''Hi''))) 0
         (Move \<lparr>px = 1, py = 1\<rparr>),
       Mouse (example_env (\<lambda>a. Inr example_screenshot) (Inr (lit ''Hi''))) 0
         (Release LeftButton \<lparr>px = 1, py = 1\<rparr>)] one_overlay)) = Some 0 \<and>
   emitted 0 (trace (run
      [Mouse (example_env (\<lambda>a. Inr example_screenshot) (Inr (lit ''Hi''))) 0
         (Press LeftButton \<lparr>px = 0, py = 0\<rparr>),
       Mouse (example_env (\<lambda>a. Inr example_screenshot) (Inr (lit ''Hi''))) 0
         (Move \<lparr>px = 1, py = 1\<rparr>),
       Mouse (example_env (\<lambda>a. Inr example_screenshot) (Inr (lit ''Hi''))) 0
         (Release LeftButton \<lparr>px = 1, py = 1\<rparr>)] one_overlay)) =
     [\<lparr>x1 = 0, y1 = 0, x2 = 1, y2 = 1\<rparr>] \<and>
   rubber_band_geometry (widgets (run
      [Mouse (example_env (\<lambda>a. Inr example_screenshot) (Inr (lit ''Hi''))) 0
         (Press LeftButton \<lparr>px = 0, py = 0\<rparr>),
       Mouse (example_env (\<lambda>a. Inr example_screenshot) (Inr (lit ''Hi''))) 0
         (Move \<lparr>px = 1, py = 1\<rparr>),
       Mouse (example_env (\<lambda>a. Inr example_screenshot) (Inr (lit ''Hi''))) 0
         (Release LeftButton \<lparr>px = 1, py = 1\<rparr>)] one_overlay) ! 0) =
     Some \<lparr>x1 = 0, y1 = 0, x2 = 1, y2 = 1\<rparr> \<and>
   start_point (widgets (run
      [Mouse (example_env (\<lambda>a. Inr example_screenshot) (Inr (lit ''Hi''))) 0
         (Press LeftButton \<lparr>px = 0, py = 0\<rparr>),
       Mouse (example_env (\<lambda>a. Inr example_screenshot) (Inr (lit ''Hi''))) 0
         (Move \<lparr>px = 1, py = 1\<rparr>),
       Mouse (example_env (\<lambda>a. Inr example_screenshot) (Inr (lit ''Hi''))) 0
         (Release LeftButton \<lparr>px = 1, py = 1\<rparr>)] one_overlay) ! 0) =
     Some \<lparr>px = 0, py = 0\<rparr> \<and>
   end_point (widgets (run
      [Mouse (example_env (\<lambda>a. Inr example_screenshot) (Inr (lit ''Hi''))) 0
         (Press LeftButton \<lparr>px = 0, py = 0\<rparr>),
       Mouse (example_env (\<lambda>a. Inr example_screenshot) (Inr (lit ''Hi''))) 0
         (Move \<lparr>px = 1, py = 1\<rparr>),
       Mouse (example_env (\<lambda>a. Inr example_screenshot) (Inr (lit ''Hi''))) 0
         (Release LeftButton \<lparr>px = 1, py = 1\<rparr>)] one_overlay) ! 0) =
     Some \<lparr>px = 1, py = 1\<rparr>"
  by (simp add: one_overlay_eq step_def mousePressEvent_def mouseMoveEvent_def
      mouseReleaseEvent_def emit_selectionComplete_def close_widget_def
      handle_selection_def try_body_def capture_and_crop_def
      example_env_def py_print_def abort_on_def log_call_def
      normalized_def QRect_points_def wrap32_def ScreenshotOverlay_init_def Let_def)

subsection \<open>The OCR command\<close>












subsection \<open>At most one overlay\<close>

lemma filter_at_most_one:
  "(\<And>j. j < length xs \<Longrightarrow> P (xs ! j) \<Longrightarrow> j = k) \<Longrightarrow> length (filter P xs) \<le> 1"
proof (induction xs arbitrary: k)
  case Nil
  then show ?case by simp
next
  case (Cons x xs)
  show ?case
  proof (cases "P x")
    case True
    with Cons.prems [of 0] have k: "k = 0" by simp
    have "\<not> P y" if "y \<in> set xs" for y
    proof
      assume py: "P y"
      from that obtain j where "j < length xs" "xs ! j = y" by (auto simp: in_set_conv_nth)
      with py Cons.prems [of "Suc j"] k show False by simp
    qed
    then have "filter P xs = []" by (simp add: filter_empty_conv)
    with True show ?thesis by simp
  next
    case False
    have "length (filter P xs) \<le> 1"
    proof (rule Cons.IH [of "k - 1"])
      fix j assume "j < length xs" "P (xs ! j)"
      with Cons.prems [of "Suc j"] show "j = k - 1" by simp
    qed
    with False show ?thesis by simp
  qed
qed

lemma single_shown_count:
  assumes "single_shown s"
  shows "visible_count s \<le> 1"
proof (cases "overlay (app s)")
  case None
  with assms have "\<And>j. j < length (widgets s) \<Longrightarrow> visible (widgets s ! j) \<Longrightarrow> j = 0"
    by (simp add: single_shown_def)
  then show ?thesis unfolding visible_count_def by (rule filter_at_most_one)
next
  case (Some k)
  with assms have "\<And>j. j < length (widgets s) \<Longrightarrow> visible (widgets s ! j) \<Longrightarrow> j = k"
    by (simp add: single_shown_def)
  then show ?thesis unfolding visible_count_def by (rule filter_at_most_one)
qed

lemma single_shown_cong:
  assumes "single_shown s" "app t = app s" "widgets t = widgets s"
  shows "single_shown t"
  using assms by (simp add: single_shown_def)

lemma single_shown_start_overlay:
  assumes "single_shown s"
  shows "single_shown (start_overlay s)"
proof (cases "overlay_shown s")
  case True
  with assms show ?thesis by (simp add: start_overlay_def)
next
  case False
  have none: "\<not> visible (widgets s ! j)" if "j < length (widgets s)" for j
  proof
    assume v: "visible (widgets s ! j)"
    with assms that have "overlay (app s) = Some j" by (simp add: single_shown_def)
    with that v have "overlay_shown s" by (simp add: overlay_shown_def)
    with False show False by simp
  qed
  show ?thesis
    unfolding single_shown_def
  proof (intro allI impI)
    fix j
    assume j: "j < length (widgets (start_overlay s))" and v: "visible (widgets (start_overlay s) ! j)"
    show "overlay (app (start_overlay s)) = Some j"
    proof (cases "j < length (widgets s)")
      case True
      with v False none [of j] show ?thesis by (simp add: start_overlay_def nth_append)
    next
      case n: False
      with j False have "j = length (widgets s)" by (simp add: start_overlay_def)
      with False show ?thesis by (simp add: start_overlay_def)
    qed
  qed
qed

lemma single_shown_on_press:
  assumes "single_shown s"
  shows "single_shown (snd (on_press env hk key s))"
proof -
  obtain exc s0 where pr: "py_print env [lit ''Key pressed: '' @ key] s = (exc, s0)"
    by (cases "py_print env [lit ''Key pressed: '' @ key] s")
  with py_print_keeps [of env "[lit ''Key pressed: '' @ key]" s]
  have k: "app s0 = app s" "widgets s0 = widgets s" by simp_all
  from single_shown_cong [OF assms k] have d0: "single_shown s0" .
  then have d1: "single_shown (log_call (HotkeyPress key) s0)"
    by (simp add: single_shown_def log_call_def)
  have dp: "single_shown (snd (py_print env m (log_call (HotkeyPress key) s0)))" for m
    using d1 by (rule single_shown_cong) (simp_all add: py_print_keeps)
  have ds: "single_shown (start_overlay (log_call (HotkeyPress key) s0))"
    using d1 by (rule single_shown_start_overlay)
  show ?thesis
  proof (cases exc)
    case (Some e)
    with pr d0 show ?thesis by (simp add: on_press_def)
  next
    case None
    with pr d1 dp ds show ?thesis by (cases hk) (auto simp: on_press_def Let_def)
  qed
qed

lemma single_shown_update:
  assumes "single_shown s" "visible w \<longrightarrow> visible (widgets s ! i)"
  shows "single_shown (s\<lparr>widgets := (widgets s)[i := w]\<rparr>)"
  unfolding single_shown_def
proof (intro allI impI)
  fix j
  assume j: "j < length (widgets (s\<lparr>widgets := (widgets s)[i := w]\<rparr>))"
    and v: "visible (widgets (s\<lparr>widgets := (widgets s)[i := w]\<rparr>) ! j)"
  from j have jl: "j < length (widgets s)" by simp
  have "visible (widgets s ! j)"
  proof (cases "j = i")
    case True
    with v jl assms(2) show ?thesis by simp
  next
    case False
    with v jl show ?thesis by simp
  qed
  with assms(1) jl show "overlay (app (s\<lparr>widgets := (widgets s)[i := w]\<rparr>)) = Some j"
    by (simp add: single_shown_def)
qed

lemma single_shown_release:
  assumes "single_shown s"
  shows "single_shown (snd (mouseReleaseEvent env i b q s))"
proof -
  let ?s1 = "s\<lparr>widgets := (widgets s)
                 [i := (widgets s ! i)\<lparr>end_point := Some q, rubber_band_visible := False\<rparr>]\<rparr>"
  have s1: "single_shown ?s1" using assms by (rule single_shown_update) simp
  show ?thesis
  proof (cases "b = LeftButton")
    case False
    with assms show ?thesis by (simp add: mouseReleaseEvent_def)
  next
    case True
    show ?thesis
    proof (cases "start_point (widgets ?s1 ! i)")
      case None
      with True s1 show ?thesis by (simp add: mouseReleaseEvent_def Let_def)
    next
      case (Some sp)
      obtain exc s2 where m: "emit_selectionComplete env i (normalized (QRect_points sp q)) ?s1 = (exc, s2)"
        by (cases "emit_selectionComplete env i (normalized (QRect_points sp q)) ?s1")
      with emit_keeps(1,2) [of env i "normalized (QRect_points sp q)" ?s1]
      have "app s2 = app ?s1" "widgets s2 = widgets ?s1" by simp_all
      with s1 have s2: "single_shown s2" by (simp add: single_shown_def)
      have "single_shown (s2\<lparr>widgets := (widgets s2)[i := (widgets s2 ! i)\<lparr>visible := False\<rparr>]\<rparr>)"
        using s2 by (rule single_shown_update) simp
      then have "single_shown (close_widget i s2)"
        by (rule single_shown_cong) (simp_all add: close_widget_def)
      with True Some m s2 show ?thesis
        by (cases exc) (simp_all add: mouseReleaseEvent_def Let_def)
    qed
  qed
qed

lemma single_shown_step:
  assumes "single_shown s"
  shows "single_shown (step ev s)"
proof (cases "aborted s")
  case True
  with assms show ?thesis by (simp add: step_def)
next
  case False
  show ?thesis
  proof (cases ev)
    case (KeyPress env key hk)
    obtain exc s' where o: "on_press env hk key s = (exc, s')" by (cases "on_press env hk key s")
    with single_shown_on_press [OF assms, of env hk key] have "single_shown s'" by simp
    then have "single_shown (report exc s')"
      by (rule single_shown_cong) (simp_all add: report_keeps)
    with o KeyPress False show ?thesis by (simp add: step_def)
  next
    case (KeyRelease env key hk)
    obtain exc s' where o: "on_release env hk key s = (exc, s')"
      by (cases "on_release env hk key s")
    with on_release_keeps [of env hk key s] have "app s' = app s" "widgets s' = widgets s"
      by simp_all
    with assms have "single_shown s'" by (rule single_shown_cong)
    then have "single_shown (report exc s')"
      by (rule single_shown_cong) (simp_all add: report_keeps)
    with o KeyRelease False show ?thesis by (simp add: step_def)
  next
    case (Mouse env i mev)
    show ?thesis
    proof (cases "i < length (widgets s)")
      case n: False
      with Mouse False assms show ?thesis by (simp add: step_def)
    next
      case True
      show ?thesis
      proof (cases mev)
        case (Press b q)
        have "single_shown (s\<lparr>widgets := (widgets s)[i := mousePressEvent b q (widgets s ! i)]\<rparr>)"
          using assms by (rule single_shown_update) (simp add: mousePressEvent_def)
        with Mouse Press False True show ?thesis by (simp add: step_def)
      next
        case (Move q)
        have "single_shown (s\<lparr>widgets := (widgets s)[i := mouseMoveEvent q (widgets s ! i)]\<rparr>)"
          using assms
          by (rule single_shown_update) (simp add: mouseMoveEvent_def split: option.splits)
        with Mouse Move False True show ?thesis by (simp add: step_def)
      next
        case (Release b q)
        obtain exc s' where o: "mouseReleaseEvent env i b q s = (exc, s')"
          by (cases "mouseReleaseEvent env i b q s")
        with single_shown_release [OF assms, of env i b q] have "single_shown s'" by simp
        then have "single_shown (abort_on exc s')"
          by (rule single_shown_cong) (simp_all add: abort_on_keeps)
        with o Mouse Release False True show ?thesis by (simp add: step_def)
      qed
    qed
  qed
qed

lemma single_shown_run:
  "single_shown s \<Longrightarrow> single_shown (run evs s)"
  by (induction evs arbitrary: s) (simp_all add: single_shown_step)

lemma on_press_shown:
  assumes "overlay_shown s"
  shows "widgets (snd (on_press env Activated key s)) = widgets s \<and>
         app (snd (on_press env Activated key s)) = app s"
proof -
  obtain exc s0 where pr: "py_print env [lit ''Key pressed: '' @ key] s = (exc, s0)"
    by (cases "py_print env [lit ''Key pressed: '' @ key] s")
  with py_print_keeps [of env "[lit ''Key pressed: '' @ key]" s]
  have k: "app s0 = app s" "widgets s0 = widgets s" by simp_all
  with assms have "overlay_shown (log_call (HotkeyPress key) s0)"
    by (simp add: overlay_shown_def log_call_def split: option.splits)
  then have "start_overlay (log_call (HotkeyPress key) s0) = log_call (HotkeyPress key) s0"
    by (simp add: start_overlay_def)
  with pr k show ?thesis
    by (cases exc) (simp_all add: on_press_def Let_def log_call_def)
qed

text \<open>
  Claim C9. After every run of the program from its start at most one overlay is visible.
  While the overlay the application refers to is visible, \<^verbatim>\<open>start_overlay\<close> returns the
  state it was given, and a press of the hotkey, which calls it, leaves the widgets (so their
  number, and the slots connected to the signal of each) and the application object as they
  were; it writes its line to standard output. The events of a run are handled one after the
  other; \<^verbatim>\<open>start_overlay\<close> is called by the hotkey only.
\<close>

theorem start_overlay_idempotent:
  "visible_count (run evs (main_init environ argv cmd)) \<le> 1 \<and>
   (overlay_shown s \<longrightarrow>
      start_overlay s = s \<and>
      widgets (snd (on_press env Activated key s)) = widgets s \<and>
      app (snd (on_press env Activated key s)) = app s)"
proof -
  have "single_shown (main_init environ argv cmd)" by (simp add: single_shown_def main_init_def)
  then have "single_shown (run evs (main_init environ argv cmd))" by (rule single_shown_run)
  then have "visible_count (run evs (main_init environ argv cmd)) \<le> 1"
    by (rule single_shown_count)
  moreover have "overlay_shown s \<longrightarrow> start_overlay s = s" by (simp add: start_overlay_def)
  ultimately show ?thesis using on_press_shown [of s env key] by simp
qed

theorem start_overlay_idempotent_witness:
  "overlay_shown one_overlay \<and> start_overlay one_overlay = one_overlay \<and>
   widgets (snd (on_press (example_env (\<lambda>a. Inr example_screenshot) (Inr (lit ''Hi'')))
     Activated (lit ''s'') one_overlay)) = widgets one_overlay \<and>
   length (widgets one_overlay) = 1 \<and>
   visible_count (run
     [KeyPress (example_env (\<lambda>a. Inr example_screenshot) (Inr (lit ''Hi''))) (lit ''s'') Activated,
      KeyPress (example_env (\<lambda>a. Inr example_screenshot) (Inr (lit ''Hi''))) (lit ''s'') Activated]
     (main_init Map.empty [] (lit ''tesseract''))) \<le> 1"
proof -
  have a: "overlay_shown one_overlay" by (simp add: one_overlay_eq overlay_shown_def)
  from start_overlay_idempotent [of "[KeyPress (example_env (\<lambda>a. Inr example_screenshot) (Inr (lit ''Hi''))) (lit ''s'') Activated,
      KeyPress (example_env (\<lambda>a. Inr example_screenshot) (Inr (lit ''Hi''))) (lit ''s'') Activated]"
      Map.empty "[]" "lit ''tesseract''" one_overlay
      "example_env (\<lambda>a. Inr example_screenshot) (Inr (lit ''Hi''))" "lit ''s''"] a
  show ?thesis by (simp add: one_overlay_eq)
qed

subsection \<open>The argument vector\<close>






















end
